theory Spec2Isabelle
  imports Main "HOL-Library.Word" "HOL-Library.Sublist"
begin

section \<open>Bytes, strings and the struct codec\<close>

text \<open>
  The two scripts \<^verbatim>\<open>test_vnc_server.py\<close> (server role, \<^verbatim>\<open>MockVNCServer.handle_client\<close>)
  and \<^verbatim>\<open>test_vnc_protocol.py\<close> (client role, \<^verbatim>\<open>test_vnc_handshake\<close>) speak the RFB
  handshake over a TCP socket. A Python \<^verbatim>\<open>bytes\<close> value is a list of 8-bit words, a Python
  \<^verbatim>\<open>str\<close> is the list of its Unicode code points. What the scripts print is not part
  of the model, except where building the printed line can raise and where the server's
  loop logs a message. The exceptions that the modelled code can raise are the three of
  \<open>exn\<close>.
\<close>

type_synonym byte = "8 word"
type_synonym bytes = "byte list"
type_synonym str = "nat list"

definition str_of :: "string \<Rightarrow> str" where
  "str_of cs = map of_char cs"

definition bytes_of :: "string \<Rightarrow> bytes" where
  "bytes_of cs = map of_char cs"

datatype exn = socket_timeout | struct_error | UnicodeDecodeError

subsection \<open>\<^verbatim>\<open>struct.pack\<close> and \<^verbatim>\<open>struct.unpack\<close>\<close>

text \<open>
  Format \<^verbatim>\<open>!\<close> is network order (big-endian), no alignment. A format without prefix is
  the host's native order and alignment: the server packs its pixel format that way, so the
  byte order of the three \<^verbatim>\<open>H\<close> fields there is the host's; it is the parameter
  \<open>host_be\<close> (true on a big-endian host). \<^verbatim>\<open>unpack\<close> raises \<^verbatim>\<open>struct.error\<close> unless
  the buffer has exactly the size of the format: that is \<open>None\<close> here.
\<close>

definition be16 :: "byte \<Rightarrow> byte \<Rightarrow> 16 word" where
  "be16 a b = of_nat (unat a * 256 + unat b)"

definition be32 :: "byte \<Rightarrow> byte \<Rightarrow> byte \<Rightarrow> byte \<Rightarrow> 32 word" where
  "be32 a b c d = of_nat (unat a * 16777216 + unat b * 65536 + unat c * 256 + unat d)"

definition pack_H :: "16 word \<Rightarrow> bytes" where
  "pack_H w = [of_nat (unat w div 256), of_nat (unat w mod 256)]"

definition pack_I :: "32 word \<Rightarrow> bytes" where
  "pack_I w = [of_nat (unat w div 16777216), of_nat (unat w div 65536 mod 256),
               of_nat (unat w div 256 mod 256), of_nat (unat w mod 256)]"

definition pack_H_native :: "bool \<Rightarrow> 16 word \<Rightarrow> bytes" where
  "pack_H_native host_be w = (if host_be then pack_H w else rev (pack_H w))"

definition unpack_B :: "bytes \<Rightarrow> byte option" where
  "unpack_B bs = (case bs of [b] \<Rightarrow> Some b | _ \<Rightarrow> None)"

definition unpack_I :: "bytes \<Rightarrow> 32 word option" where
  "unpack_I bs = (case bs of [a, b, c, d] \<Rightarrow> Some (be32 a b c d) | _ \<Rightarrow> None)"

definition unpack_HH :: "bytes \<Rightarrow> (16 word \<times> 16 word) option" where
  "unpack_HH bs = (case bs of [a, b, c, d] \<Rightarrow> Some (be16 a b, be16 c d) | _ \<Rightarrow> None)"

definition unpack_HHH :: "bytes \<Rightarrow> (16 word \<times> 16 word \<times> 16 word) option" where
  "unpack_HHH bs =
     (case bs of [a, b, c, d, e, f] \<Rightarrow> Some (be16 a b, be16 c d, be16 e f) | _ \<Rightarrow> None)"

definition unpack_BBB :: "bytes \<Rightarrow> (byte \<times> byte \<times> byte) option" where
  "unpack_BBB bs = (case bs of [a, b, c] \<Rightarrow> Some (a, b, c) | _ \<Rightarrow> None)"

definition unpack_BBBB :: "bytes \<Rightarrow> (byte \<times> byte \<times> byte \<times> byte) option" where
  "unpack_BBBB bs = (case bs of [a, b, c, d] \<Rightarrow> Some (a, b, c, d) | _ \<Rightarrow> None)"

subsection \<open>\<^verbatim>\<open>bytes.decode\<close>, \<^verbatim>\<open>str.strip\<close>, \<^verbatim>\<open>str.startswith\<close>\<close>

text \<open>
  \<^verbatim>\<open>decode('ascii')\<close> raises \<^verbatim>\<open>UnicodeDecodeError\<close> on a byte above 127.
  \<^verbatim>\<open>decode('utf-8')\<close> (also the default of \<^verbatim>\<open>decode()\<close>) is strict: it accepts the
  well-formed sequences of the Unicode standard only (no overlong form, no surrogate, nothing
  above U+10FFFF).
\<close>

definition decode_ascii :: "bytes \<Rightarrow> str option" where
  "decode_ascii bs = (if list_all (\<lambda>b. b < 128) bs then Some (map unat bs) else None)"

definition cont :: "byte \<Rightarrow> nat \<Rightarrow> nat \<Rightarrow> bool" where
  "cont b lo hi = (lo \<le> unat b \<and> unat b \<le> hi)"

fun decode_utf8 :: "bytes \<Rightarrow> str option" where
  "decode_utf8 [] = Some []"
| "decode_utf8 (b0 # bs) =
     (let n0 = unat b0 in
      if n0 < 128 then map_option (Cons n0) (decode_utf8 bs)
      else if 194 \<le> n0 \<and> n0 \<le> 223 then
        (case bs of
           b1 # r \<Rightarrow>
             if cont b1 128 191
             then map_option (Cons ((n0 - 192) * 64 + (unat b1 - 128))) (decode_utf8 r)
             else None
         | _ \<Rightarrow> None)
      else if 224 \<le> n0 \<and> n0 \<le> 239 then
        (case bs of
           b1 # b2 # r \<Rightarrow>
             if cont b1 (if n0 = 224 then 160 else 128) (if n0 = 237 then 159 else 191)
                \<and> cont b2 128 191
             then map_option
                    (Cons ((n0 - 224) * 4096 + (unat b1 - 128) * 64 + (unat b2 - 128)))
                    (decode_utf8 r)
             else None
         | _ \<Rightarrow> None)
      else if 240 \<le> n0 \<and> n0 \<le> 244 then
        (case bs of
           b1 # b2 # b3 # r \<Rightarrow>
             if cont b1 (if n0 = 240 then 144 else 128) (if n0 = 244 then 143 else 191)
                \<and> cont b2 128 191 \<and> cont b3 128 191
             then map_option
                    (Cons ((n0 - 240) * 262144 + (unat b1 - 128) * 4096
                           + (unat b2 - 128) * 64 + (unat b3 - 128)))
                    (decode_utf8 r)
             else None
         | _ \<Rightarrow> None)
      else None)"

text \<open>
  \<^verbatim>\<open>str.strip()\<close> removes leading and trailing characters for which \<^verbatim>\<open>str.isspace\<close>
  holds; in the ASCII range these are 9 to 13, 28 to 31 and 32.
\<close>

definition isspace :: "nat \<Rightarrow> bool" where
  "isspace c = ((9 \<le> c \<and> c \<le> 13) \<or> (28 \<le> c \<and> c \<le> 32) \<or> c = 133 \<or> c = 160
                \<or> c = 5760 \<or> (8192 \<le> c \<and> c \<le> 8202) \<or> c = 8232 \<or> c = 8233
                \<or> c = 8239 \<or> c = 8287 \<or> c = 12288)"

definition strip :: "str \<Rightarrow> str" where
  "strip s = rev (dropWhile isspace (rev (dropWhile isspace s)))"

definition startswith :: "str \<Rightarrow> str \<Rightarrow> bool" where
  "startswith s p = prefix p s"

section \<open>The socket\<close>

text \<open>
  A connected TCP socket, seen from one end. \<open>inbound\<close> is what the peer sends, in
  arrival order, one element for each piece the network delivers (empty pieces are never
  delivered and are skipped); \<open>ending\<close> says what happens once all of it is read: the
  peer has closed the connection, or it stays silent without closing. \<open>timeout\<close> is the
  value of \<^verbatim>\<open>settimeout\<close> in seconds (\<open>None\<close> for a blocking socket, as \<^verbatim>\<open>accept\<close>
  and \<^verbatim>\<open>socket.socket\<close> return it), \<open>sent\<close> has one entry for each \<^verbatim>\<open>sendall\<close>,
  \<open>closed\<close> is set by \<^verbatim>\<open>close\<close>.

  \<^verbatim>\<open>recv(n)\<close> returns at most \<open>n\<close> bytes of the first piece not yet read up, and leaves
  the rest of it for the next call; it does not wait for \<open>n\<close> bytes. With nothing left to
  read it returns \<^verbatim>\<open>b''\<close> on a closed connection; on a silent one it raises
  \<^verbatim>\<open>socket.timeout\<close> when a timeout is set and never returns otherwise. \<^verbatim>\<open>recv(0)\<close>
  returns \<^verbatim>\<open>b''\<close> at once. Sending always succeeds, and so does the allocation of
  the buffer of \<open>n\<close> bytes that \<^verbatim>\<open>recv(n)\<close> asks for.
\<close>

datatype ending = Closed | Silent

record sock =
  inbound :: "bytes list"
  ending :: ending
  timeout :: "nat option"
  sent :: "bytes list"
  closed :: bool

datatype recv_result = Received bytes sock | TimedOut | Blocked

fun recv_chunks :: "nat \<Rightarrow> bytes list \<Rightarrow> (bytes \<times> bytes list) option" where
  "recv_chunks n [] = None"
| "recv_chunks n (c # cs) =
     (if c = [] then recv_chunks n cs
      else Some (take n c, if length c \<le> n then cs else drop n c # cs))"

definition recv :: "nat \<Rightarrow> sock \<Rightarrow> recv_result" where
  "recv n s =
     (if n = 0 then Received [] s
      else
        (case recv_chunks n (inbound s) of
           Some (data, rest) \<Rightarrow> Received data (s\<lparr>inbound := rest\<rparr>)
         | None \<Rightarrow>
             (case ending s of
                Closed \<Rightarrow> Received [] (s\<lparr>inbound := []\<rparr>)
              | Silent \<Rightarrow> (case timeout s of None \<Rightarrow> Blocked | Some t \<Rightarrow> TimedOut))))"

definition sendall :: "bytes \<Rightarrow> sock \<Rightarrow> sock" where
  "sendall data s = s\<lparr>sent := sent s @ [data]\<rparr>"

definition settimeout :: "nat \<Rightarrow> sock \<Rightarrow> sock" where
  "settimeout t s = s\<lparr>timeout := Some t\<rparr>"

definition close :: "sock \<Rightarrow> sock" where
  "close s = s\<lparr>closed := True\<rparr>"

definition new_socket :: "bytes list \<Rightarrow> ending \<Rightarrow> sock" where
  "new_socket chunks e =
     \<lparr>inbound = chunks, ending = e, timeout = None, sent = [], closed = False\<rparr>"

section \<open>Server role: \<^verbatim>\<open>MockVNCServer.handle_client\<close>\<close>

definition RFB_VERSION :: bytes where
  "RFB_VERSION = bytes_of ''RFB 003.008'' @ [10]"

definition SECURITY_NONE :: byte where
  "SECURITY_NONE = 1"

text \<open>
  \<^verbatim>\<open>struct.pack('BBBB HHH BBB xxx', 32, 24, 0, 1, 255, 255, 255, 16, 8, 0)\<close>: native mode,
  16 bytes (the \<^verbatim>\<open>H\<close> fields start at offset 4, which is aligned).
\<close>

definition pixel_format :: "bool \<Rightarrow> bytes" where
  "pixel_format host_be =
     [32, 24, 0, 1] @ pack_H_native host_be 255 @ pack_H_native host_be 255
     @ pack_H_native host_be 255 @ [16, 8, 0] @ [0, 0, 0]"

definition desktop_name :: bytes where
  "desktop_name = bytes_of ''Horcrux Test VM''"

definition server_init :: "bool \<Rightarrow> bytes" where
  "server_init host_be =
     pack_H 1024 @ pack_H 768 @ pixel_format host_be
     @ pack_I (of_nat (length desktop_name)) @ desktop_name"

text \<open>\<^verbatim>\<open>struct.pack('!BxH', 0, 0)\<close>: type 0, one pad byte, 0 rectangles.\<close>

definition fb_update :: bytes where
  "fb_update = [0] @ [0] @ pack_H 0"

subsection \<open>Step 8: the message loop\<close>

datatype message =
  SetPixelFormat | SetEncodings | FramebufferUpdateRequest | KeyEvent | PointerEvent
  | ClientCutText

text \<open>The \<^verbatim>\<open>if\<close>/\<^verbatim>\<open>elif\<close> chain on \<^verbatim>\<open>msg_type\<close>; no branch for any other value.\<close>

definition message_of_type :: "byte \<Rightarrow> message option" where
  "message_of_type msg_type =
     (if msg_type = 0 then Some SetPixelFormat
      else if msg_type = 2 then Some SetEncodings
      else if msg_type = 3 then Some FramebufferUpdateRequest
      else if msg_type = 4 then Some KeyEvent
      else if msg_type = 5 then Some PointerEvent
      else if msg_type = 6 then Some ClientCutText
      else None)"

text \<open>
  The state of the loop: the socket and the lines the loop has logged, one entry for each
  \<^verbatim>\<open>Received message type: {msg_type} ({len(data)} bytes)\<close> with the branch of the chain
  that was taken after it.
\<close>

record loop_state =
  conn :: sock
  log :: "(byte \<times> nat \<times> message option) list"

datatype ctl = Continue | Break

text \<open>
  One run of the body of \<^verbatim>\<open>while True\<close>. \<open>None\<close>: the body never ends (a \<^verbatim>\<open>recv\<close> that
  blocks for ever). \<^verbatim>\<open>socket.timeout\<close> is caught by \<^verbatim>\<open>continue\<close>.
\<close>

definition loop_body :: "loop_state \<Rightarrow> (ctl \<times> loop_state) option" where
  "loop_body st =
     (let s1 = settimeout 1 (conn st) in
      case recv 1024 s1 of
        Blocked \<Rightarrow> None
      | TimedOut \<Rightarrow> Some (Continue, st\<lparr>conn := s1\<rparr>)
      | Received data s2 \<Rightarrow>
          (case data of
             [] \<Rightarrow> Some (Break, st\<lparr>conn := s2\<rparr>)
           | msg_type # _ \<Rightarrow>
               Some (Continue,
                 \<lparr>conn = (if msg_type = 3 then sendall fb_update s2 else s2),
                  log = log st @ [(msg_type, length data, message_of_type msg_type)]\<rparr>)))"

partial_function (option) session_loop :: "loop_state \<Rightarrow> loop_state option" where
  "session_loop st =
     (case loop_body st of
        None \<Rightarrow> None
      | Some (c, st') \<Rightarrow> (case c of Break \<Rightarrow> Some st' | Continue \<Rightarrow> session_loop st'))"

subsection \<open>Steps 1 to 7: the handshake\<close>

text \<open>
  How \<^verbatim>\<open>handle_client\<close> ends: one of its three early \<^verbatim>\<open>return\<close>s, the \<^verbatim>\<open>break\<close> of the
  loop on an empty read, or an exception caught by the outer handler. The steps are
  numbered as in the source and defined from the last to the first, each one ending in a
  call of the next; \<open>None\<close> is a step that never ends.
\<close>

datatype server_status =
  InvalidClientVersionLength nat
  | InvalidSecuritySelection
  | InvalidClientInit
  | ClientDisconnected
  | ErrorHandlingClient exn

definition server_step8 :: "sock \<Rightarrow> (server_status \<times> loop_state) option" where
  "server_step8 s =
     (case session_loop \<lparr>conn = s, log = []\<rparr> of
        None \<Rightarrow> None
      | Some st \<Rightarrow> Some (ClientDisconnected, st))"

definition server_step7 :: "bool \<Rightarrow> sock \<Rightarrow> (server_status \<times> loop_state) option" where
  "server_step7 host_be s = server_step8 (sendall (server_init host_be) s)"

definition server_step6 :: "bool \<Rightarrow> sock \<Rightarrow> (server_status \<times> loop_state) option" where
  "server_step6 host_be s =
     (case recv 1 s of
        Blocked \<Rightarrow> None
      | TimedOut \<Rightarrow> Some (ErrorHandlingClient socket_timeout, \<lparr>conn = s, log = []\<rparr>)
      | Received client_init s' \<Rightarrow>
          if length client_init = 1 then server_step7 host_be s'
          else Some (InvalidClientInit, \<lparr>conn = s', log = []\<rparr>))"

definition server_step5 :: "bool \<Rightarrow> sock \<Rightarrow> (server_status \<times> loop_state) option" where
  "server_step5 host_be s = server_step6 host_be (sendall (pack_I 0) s)"

definition server_step4 :: "bool \<Rightarrow> sock \<Rightarrow> (server_status \<times> loop_state) option" where
  "server_step4 host_be s =
     (case recv 1 s of
        Blocked \<Rightarrow> None
      | TimedOut \<Rightarrow> Some (ErrorHandlingClient socket_timeout, \<lparr>conn = s, log = []\<rparr>)
      | Received security_selection s' \<Rightarrow>
          if length security_selection = 1 then server_step5 host_be s'
          else Some (InvalidSecuritySelection, \<lparr>conn = s', log = []\<rparr>))"

definition server_step3 :: "bool \<Rightarrow> sock \<Rightarrow> (server_status \<times> loop_state) option" where
  "server_step3 host_be s = server_step4 host_be (sendall [1, SECURITY_NONE] s)"

text \<open>
  Step 2 logs \<^verbatim>\<open>client_version.decode().strip()\<close>: twelve bytes that are not UTF-8 raise
  \<^verbatim>\<open>UnicodeDecodeError\<close> there.
\<close>

definition server_step2 :: "bool \<Rightarrow> sock \<Rightarrow> (server_status \<times> loop_state) option" where
  "server_step2 host_be s =
     (case recv 12 s of
        Blocked \<Rightarrow> None
      | TimedOut \<Rightarrow> Some (ErrorHandlingClient socket_timeout, \<lparr>conn = s, log = []\<rparr>)
      | Received client_version s' \<Rightarrow>
          if length client_version = 12 then
            (case decode_utf8 client_version of
               None \<Rightarrow> Some (ErrorHandlingClient UnicodeDecodeError, \<lparr>conn = s', log = []\<rparr>)
             | Some v \<Rightarrow> server_step3 host_be s')
          else Some (InvalidClientVersionLength (length client_version),
                     \<lparr>conn = s', log = []\<rparr>))"

definition server_step1 :: "bool \<Rightarrow> sock \<Rightarrow> (server_status \<times> loop_state) option" where
  "server_step1 host_be s = server_step2 host_be (sendall RFB_VERSION s)"

text \<open>
  The whole of \<^verbatim>\<open>handle_client\<close> on the socket that \<^verbatim>\<open>accept\<close> returned; the
  \<^verbatim>\<open>finally\<close> clause closes it on every path that ends. \<open>None\<close>: the call never returns.
\<close>

definition finally_close ::
  "(server_status \<times> loop_state) option \<Rightarrow> (server_status \<times> loop_state) option" where
  "finally_close r =
     (case r of
        None \<Rightarrow> None
      | Some (status, st) \<Rightarrow> Some (status, st\<lparr>conn := close (conn st)\<rparr>))"

definition handle_client :: "bool \<Rightarrow> bytes list \<Rightarrow> ending \<Rightarrow> (server_status \<times> loop_state) option"
  where
  "handle_client host_be chunks e = finally_close (server_step1 host_be (new_socket chunks e))"

section \<open>Client role: \<^verbatim>\<open>test_vnc_handshake\<close>\<close>

text \<open>
  What the client has parsed from ServerInit when it prints that the handshake is
  complete: the locals \<^verbatim>\<open>width\<close>, \<^verbatim>\<open>height\<close>, the pixel format fields and
  \<^verbatim>\<open>desktop_name\<close> (here \<open>name\<close>).
\<close>

record server_params =
  width :: "16 word"
  height :: "16 word"
  bits_per_pixel :: byte
  depth :: byte
  big_endian :: byte
  true_color :: byte
  red_max :: "16 word"
  green_max :: "16 word"
  blue_max :: "16 word"
  red_shift :: byte
  green_shift :: byte
  blue_shift :: byte
  name :: str

text \<open>What step 8 saw in answer to its FramebufferUpdateRequest.\<close>

datatype response = FramebufferUpdate | OtherMessage byte | EmptyResponse | NoResponse

text \<open>
  How the function ends. Each failure is one \<^verbatim>\<open>return False\<close> of the source:
  the two length checks, the version check, the refused connection, the missing security
  type, the failed security result, and the handlers of \<^verbatim>\<open>socket.timeout\<close> and of
  \<^verbatim>\<open>Exception\<close>. \<open>Completed\<close> is the \<^verbatim>\<open>return True\<close> at the end. As for the
  server, the steps are numbered as in the source and defined from the last to the first.
\<close>

datatype outcome =
  InvalidServerVersionLength nat
  | InvalidRFBVersion str
  | ConnectionFailed str
  | SecurityNoneNotAvailable bytes
  | SecurityHandshakeFailed "32 word" "str option"
  | InvalidServerInitLength nat
  | ConnectionTimeout
  | Error exn
  | Completed server_params response

definition returns :: "outcome \<Rightarrow> bool" where
  "returns out = (case out of Completed p r \<Rightarrow> True | _ \<Rightarrow> False)"

text \<open>The handlers at the end of the function, for an exception raised inside \<^verbatim>\<open>try\<close>.\<close>

definition handler :: "exn \<Rightarrow> outcome" where
  "handler e = (if e = socket_timeout then ConnectionTimeout else Error e)"

text \<open>
  A \<^verbatim>\<open>recv\<close> directly inside the outer \<^verbatim>\<open>try\<close>, and the code after it: a timeout
  goes to the handler.
\<close>

definition recv_then ::
  "nat \<Rightarrow> sock \<Rightarrow> (bytes \<Rightarrow> sock \<Rightarrow> (outcome \<times> sock) option) \<Rightarrow> (outcome \<times> sock) option"
  where
  "recv_then n s k =
     (case recv n s of
        Blocked \<Rightarrow> None
      | TimedOut \<Rightarrow> Some (handler socket_timeout, s)
      | Received data s' \<Rightarrow> k data s')"

text \<open>Python's \<^verbatim>\<open>xs[a:b]\<close> for \<open>0 \<le> a \<le> b\<close>.\<close>

definition slice :: "nat \<Rightarrow> nat \<Rightarrow> 'a list \<Rightarrow> 'a list" where
  "slice a b xs = take (b - a) (drop a xs)"

subsection \<open>Step 8: FramebufferUpdateRequest\<close>

text \<open>\<^verbatim>\<open>struct.pack('!BBHHHH', 3, 0, 0, 0, width, height)\<close>\<close>

definition framebuffer_update_request :: "16 word \<Rightarrow> 16 word \<Rightarrow> bytes" where
  "framebuffer_update_request w h = [3, 0] @ pack_H 0 @ pack_H 0 @ pack_H w @ pack_H h"

definition client_step8 :: "server_params \<Rightarrow> sock \<Rightarrow> (outcome \<times> sock) option" where
  "client_step8 p s =
     (let msg = framebuffer_update_request (width p) (height p);
          s1 = sendall msg s;
          s2 = settimeout 2 s1
      in case recv 4 s2 of
           Blocked \<Rightarrow> None
         | TimedOut \<Rightarrow> Some (Completed p NoResponse, close s2)
         | Received resp s3 \<Rightarrow>
             Some (Completed p
                     (case resp of
                        [] \<Rightarrow> EmptyResponse
                      | msg_type # _ \<Rightarrow>
                          if msg_type = 0 then FramebufferUpdate else OtherMessage msg_type),
                   close s3))"

subsection \<open>Step 7: ServerInit\<close>

text \<open>
  The parsing of the 24 bytes \<^verbatim>\<open>server_init\<close>: \<^verbatim>\<open>server_init[:4]\<close>, then
  \<^verbatim>\<open>pixel_format = server_init[4:24]\<close> and its slices \<^verbatim>\<open>[:4]\<close>, \<^verbatim>\<open>[4:10]\<close>,
  \<^verbatim>\<open>[10:13]\<close>. \<open>None\<close> is \<^verbatim>\<open>struct.error\<close>. The name is read afterwards.
\<close>

definition parse_server_init :: "bytes \<Rightarrow> server_params option" where
  "parse_server_init init =
     (case unpack_HH (slice 0 4 init) of
        None \<Rightarrow> None
      | Some (w, h) \<Rightarrow>
          (let pf = slice 4 24 init in
           (case unpack_BBBB (slice 0 4 pf) of
              None \<Rightarrow> None
            | Some (bpp, dep, bige, truec) \<Rightarrow>
                (case unpack_HHH (slice 4 10 pf) of
                   None \<Rightarrow> None
                 | Some (rmax, gmax, bmax) \<Rightarrow>
                     (case unpack_BBB (slice 10 13 pf) of
                        None \<Rightarrow> None
                      | Some (rshift, gshift, bshift) \<Rightarrow>
                          Some \<lparr>width = w, height = h, bits_per_pixel = bpp, depth = dep,
                                big_endian = bige, true_color = truec, red_max = rmax,
                                green_max = gmax, blue_max = bmax, red_shift = rshift,
                                green_shift = gshift, blue_shift = bshift, name = []\<rparr>)))))"

definition client_step7 :: "sock \<Rightarrow> (outcome \<times> sock) option" where
  "client_step7 s =
     recv_then 24 s (\<lambda>init s1.
       if length init \<noteq> 24 then Some (InvalidServerInitLength (length init), s1)
       else
         (case parse_server_init init of
            None \<Rightarrow> Some (handler struct_error, s1)
          | Some p \<Rightarrow>
              recv_then 4 s1 (\<lambda>len s2.
                (case unpack_I len of
                   None \<Rightarrow> Some (handler struct_error, s2)
                 | Some name_length \<Rightarrow>
                     recv_then (unat name_length) s2 (\<lambda>raw s3.
                       (case decode_utf8 raw of
                          None \<Rightarrow> Some (handler UnicodeDecodeError, s3)
                        | Some desktop \<Rightarrow> client_step8 (p\<lparr>name := desktop\<rparr>) s3))))))"

subsection \<open>Step 6: ClientInit\<close>

definition client_step6 :: "sock \<Rightarrow> (outcome \<times> sock) option" where
  "client_step6 s = client_step7 (sendall [1] s)"

subsection \<open>Step 5: the security result\<close>

text \<open>
  The two lines \<^verbatim>\<open>reason_length = struct.unpack('!I', sock.recv(4))[0]\<close> and
  \<^verbatim>\<open>reason = sock.recv(reason_length).decode('utf-8')\<close>, which steps 3 and 5 both have:
  the reason, or the exception one of the lines raised.
\<close>

definition read_reason :: "sock \<Rightarrow> ((exn + str) \<times> sock) option" where
  "read_reason s =
     (case recv 4 s of
        Blocked \<Rightarrow> None
      | TimedOut \<Rightarrow> Some (Inl socket_timeout, s)
      | Received len s1 \<Rightarrow>
          (case unpack_I len of
             None \<Rightarrow> Some (Inl struct_error, s1)
           | Some reason_length \<Rightarrow>
               (case recv (unat reason_length) s1 of
                  Blocked \<Rightarrow> None
                | TimedOut \<Rightarrow> Some (Inl socket_timeout, s1)
                | Received raw s2 \<Rightarrow>
                    (case decode_utf8 raw of
                       None \<Rightarrow> Some (Inl UnicodeDecodeError, s2)
                     | Some reason \<Rightarrow> Some (Inr reason, s2)))))"

text \<open>
  On a nonzero result the reason is read inside \<^verbatim>\<open>try: ... except: pass\<close>: whatever
  that read raises is dropped, and the function returns False.
\<close>

definition client_step5 :: "sock \<Rightarrow> (outcome \<times> sock) option" where
  "client_step5 s =
     recv_then 4 s (\<lambda>res s1.
       (case unpack_I res of
          None \<Rightarrow> Some (handler struct_error, s1)
        | Some security_result \<Rightarrow>
            if security_result \<noteq> 0 then
              (case read_reason s1 of
                 None \<Rightarrow> None
               | Some (Inl e, s2) \<Rightarrow> Some (SecurityHandshakeFailed security_result None, s2)
               | Some (Inr reason, s2) \<Rightarrow>
                   Some (SecurityHandshakeFailed security_result (Some reason), s2))
            else client_step6 s1))"

subsection \<open>Step 4: the security type\<close>

definition client_step4 :: "bytes \<Rightarrow> sock \<Rightarrow> (outcome \<times> sock) option" where
  "client_step4 security_types s =
     (if 1 \<notin> set security_types then Some (SecurityNoneNotAvailable security_types, s)
      else client_step5 (sendall [1] s))"

subsection \<open>Step 3: the security types\<close>

text \<open>The loop \<^verbatim>\<open>for _ in range(num_types)\<close>, appending to \<^verbatim>\<open>security_types\<close>.\<close>

fun recv_security_types :: "nat \<Rightarrow> sock \<Rightarrow> bytes \<Rightarrow> ((exn + bytes) \<times> sock) option" where
  "recv_security_types 0 s security_types = Some (Inr security_types, s)"
| "recv_security_types (Suc k) s security_types =
     (case recv 1 s of
        Blocked \<Rightarrow> None
      | TimedOut \<Rightarrow> Some (Inl socket_timeout, s)
      | Received data s1 \<Rightarrow>
          (case unpack_B data of
             None \<Rightarrow> Some (Inl struct_error, s1)
           | Some sec_type \<Rightarrow> recv_security_types k s1 (security_types @ [sec_type])))"

definition client_step3 :: "sock \<Rightarrow> (outcome \<times> sock) option" where
  "client_step3 s =
     recv_then 1 s (\<lambda>data s1.
       (case unpack_B data of
          None \<Rightarrow> Some (handler struct_error, s1)
        | Some num_types \<Rightarrow>
            if num_types = 0 then
              (case read_reason s1 of
                 None \<Rightarrow> None
               | Some (Inl e, s2) \<Rightarrow> Some (handler e, s2)
               | Some (Inr reason, s2) \<Rightarrow> Some (ConnectionFailed reason, s2))
            else
              (case recv_security_types (unat num_types) s1 [] of
                 None \<Rightarrow> None
               | Some (Inl e, s2) \<Rightarrow> Some (handler e, s2)
               | Some (Inr security_types, s2) \<Rightarrow> client_step4 security_types s2)))"

subsection \<open>Steps 1 and 2: the protocol version\<close>

definition client_step2 :: "bytes \<Rightarrow> sock \<Rightarrow> (outcome \<times> sock) option" where
  "client_step2 server_version s = client_step3 (sendall server_version s)"

definition client_step1 :: "sock \<Rightarrow> (outcome \<times> sock) option" where
  "client_step1 s =
     recv_then 12 s (\<lambda>server_version s1.
       if length server_version \<noteq> 12
       then Some (InvalidServerVersionLength (length server_version), s1)
       else
         (case decode_ascii server_version of
            None \<Rightarrow> Some (handler UnicodeDecodeError, s1)
          | Some decoded \<Rightarrow>
              (let version_str = strip decoded in
               if \<not> startswith version_str (str_of ''RFB 003.'')
               then Some (InvalidRFBVersion version_str, s1)
               else client_step2 server_version s1)))"

text \<open>
  The whole function, once \<^verbatim>\<open>connect\<close> has succeeded: the socket is new, with the
  timeout of 5 seconds that the function sets before connecting. \<open>None\<close>: the call
  never returns.
\<close>

definition test_vnc_handshake :: "bytes list \<Rightarrow> ending \<Rightarrow> (outcome \<times> sock) option" where
  "test_vnc_handshake chunks e = client_step1 (settimeout 5 (new_socket chunks e))"

section \<open>Unfolding rules\<close>

lemmas codec_defs =
  str_of_def bytes_of_def be16_def be32_def pack_H_def pack_I_def pack_H_native_def
  unpack_B_def unpack_I_def unpack_HH_def unpack_HHH_def unpack_BBB_def unpack_BBBB_def
  decode_ascii_def cont_def isspace_def strip_def startswith_def slice_def

lemmas sock_defs = recv_def sendall_def settimeout_def close_def new_socket_def

lemmas server_defs =
  RFB_VERSION_def SECURITY_NONE_def pixel_format_def desktop_name_def server_init_def
  fb_update_def message_of_type_def loop_body_def server_step8_def server_step7_def
  server_step6_def server_step5_def server_step4_def server_step3_def server_step2_def
  server_step1_def finally_close_def handle_client_def

lemmas client_defs =
  returns_def handler_def recv_then_def framebuffer_update_request_def client_step8_def
  parse_server_init_def client_step7_def client_step6_def read_reason_def client_step5_def
  client_step4_def client_step3_def client_step2_def client_step1_def test_vnc_handshake_def

section \<open>The server's message loop\<close>

lemma length_framebuffer_update_request: "length (framebuffer_update_request w h) = 10"
  by (simp add: framebuffer_update_request_def pack_H_def)

text \<open>
  One iteration on a socket that has data: a single \<^verbatim>\<open>recv(1024)\<close>, one log entry and
  one dispatch, both on the first byte of what was read.
\<close>

lemma loop_body_data:
  "loop_body \<lparr>conn = \<lparr>inbound = (msg_type # tail) # rest, ending = e, timeout = t, sent = snt,
                       closed = c\<rparr>, log = lg\<rparr>
   = Some (Continue,
       \<lparr>conn = \<lparr>inbound = (if length tail < 1024 then rest
                            else drop 1024 (msg_type # tail) # rest),
                 ending = e, timeout = Some 1,
                 sent = (if msg_type = 3 then snt @ [fb_update] else snt), closed = c\<rparr>,
        log = lg @ [(msg_type, min 1024 (Suc (length tail)), message_of_type msg_type)]\<rparr>)"
  by (auto simp add: loop_body_def sock_defs min_def)

text \<open>
  C6 (scenario B). The client's FramebufferUpdateRequest, for any width and height (the
  scenario has 1024 and 768), arriving as one piece: the body of the loop sends the four
  bytes 0, 0, 0, 0 (type 0, one pad byte, rectangle count 0) and ends with
  \<^verbatim>\<open>Continue\<close>, so the loop goes on to its next \<^verbatim>\<open>recv\<close> on the rest of the input.
  The third part runs the whole of \<^verbatim>\<open>handle_client\<close> on the scenario, with a second
  request after the first: both are answered before the client's close ends the loop.
\<close>

theorem server_answers_update_request:
  "loop_body \<lparr>conn = \<lparr>inbound = framebuffer_update_request w h # rest, ending = e, timeout = t,
                       sent = snt, closed = c\<rparr>, log = lg\<rparr>
   = Some (Continue,
       \<lparr>conn = \<lparr>inbound = rest, ending = e, timeout = Some 1, sent = snt @ [[0, 0, 0, 0]],
                 closed = c\<rparr>,
        log = lg @ [(3, 10, Some FramebufferUpdateRequest)]\<rparr>)
   \<and> session_loop \<lparr>conn = \<lparr>inbound = framebuffer_update_request w h # rest, ending = e,
                            timeout = t, sent = snt, closed = c\<rparr>, log = lg\<rparr>
     = session_loop \<lparr>conn = \<lparr>inbound = rest, ending = e, timeout = Some 1,
                              sent = snt @ [[0, 0, 0, 0]], closed = c\<rparr>,
                     log = lg @ [(3, 10, Some FramebufferUpdateRequest)]\<rparr>
   \<and> handle_client host_be
       [RFB_VERSION, [1], [1], framebuffer_update_request 1024 768,
        framebuffer_update_request 1024 768] Closed
     = Some (ClientDisconnected,
         \<lparr>conn = \<lparr>inbound = [], ending = Closed, timeout = Some 1,
                   sent = [RFB_VERSION, [1, 1], [0, 0, 0, 0], server_init host_be,
                           [0, 0, 0, 0], [0, 0, 0, 0]],
                   closed = True\<rparr>,
          log = [(3, 10, Some FramebufferUpdateRequest),
                 (3, 10, Some FramebufferUpdateRequest)]\<rparr>)"
proof -
  have body:
    "loop_body \<lparr>conn = \<lparr>inbound = framebuffer_update_request w h # rest, ending = e,
                         timeout = t, sent = snt, closed = c\<rparr>, log = lg\<rparr>
     = Some (Continue,
         \<lparr>conn = \<lparr>inbound = rest, ending = e, timeout = Some 1,
                   sent = snt @ [[0, 0, 0, 0]], closed = c\<rparr>,
          log = lg @ [(3, 10, Some FramebufferUpdateRequest)]\<rparr>)"
    for w h rest e t snt c lg
    by (simp add: framebuffer_update_request_def loop_body_data fb_update_def pack_H_def
        message_of_type_def)
  have loop:
    "session_loop \<lparr>conn = \<lparr>inbound = framebuffer_update_request w h # rest, ending = e,
                            timeout = t, sent = snt, closed = c\<rparr>, log = lg\<rparr>
     = session_loop \<lparr>conn = \<lparr>inbound = rest, ending = e, timeout = Some 1,
                              sent = snt @ [[0, 0, 0, 0]], closed = c\<rparr>,
                     log = lg @ [(3, 10, Some FramebufferUpdateRequest)]\<rparr>"
    for w h rest e t snt c lg
    by (subst session_loop.simps) (simp add: body)
  have stop:
    "session_loop \<lparr>conn = \<lparr>inbound = [], ending = Closed, timeout = t, sent = snt,
                            closed = c\<rparr>, log = lg\<rparr>
     = Some \<lparr>conn = \<lparr>inbound = [], ending = Closed, timeout = Some 1, sent = snt,
                      closed = c\<rparr>, log = lg\<rparr>"
    for t snt c lg
    by (subst session_loop.simps) (simp add: loop_body_def sock_defs)
  have run:
    "handle_client host_be
       [RFB_VERSION, [1], [1], framebuffer_update_request 1024 768,
        framebuffer_update_request 1024 768] Closed
     = Some (ClientDisconnected,
         \<lparr>conn = \<lparr>inbound = [], ending = Closed, timeout = Some 1,
                   sent = [RFB_VERSION, [1, 1], [0, 0, 0, 0], server_init host_be,
                           [0, 0, 0, 0], [0, 0, 0, 0]],
                   closed = True\<rparr>,
          log = [(3, 10, Some FramebufferUpdateRequest),
                 (3, 10, Some FramebufferUpdateRequest)]\<rparr>)"
    by (simp add: handle_client_def finally_close_def server_step1_def server_step2_def
        server_step3_def server_step4_def server_step5_def server_step6_def server_step7_def
        server_step8_def sock_defs RFB_VERSION_def SECURITY_NONE_def bytes_of_def pack_I_def
        loop stop)
  from body loop run show ?thesis by blast
qed

lemma session_loop_data:
  "session_loop \<lparr>conn = \<lparr>inbound = (msg_type # tail) # rest, ending = e, timeout = t,
                          sent = snt, closed = c\<rparr>, log = lg\<rparr>
   = session_loop
       \<lparr>conn = \<lparr>inbound = (if length tail < 1024 then rest
                            else drop 1024 (msg_type # tail) # rest),
                 ending = e, timeout = Some 1,
                 sent = (if msg_type = 3 then snt @ [fb_update] else snt), closed = c\<rparr>,
        log = lg @ [(msg_type, min 1024 (Suc (length tail)), message_of_type msg_type)]\<rparr>"
  by (subst session_loop.simps) (simp only: loop_body_data option.case prod.case ctl.case)

lemma session_loop_closed:
  "session_loop \<lparr>conn = \<lparr>inbound = [], ending = Closed, timeout = t, sent = snt,
                          closed = c\<rparr>, log = lg\<rparr>
   = Some \<lparr>conn = \<lparr>inbound = [], ending = Closed, timeout = Some 1, sent = snt,
                    closed = c\<rparr>, log = lg\<rparr>"
  by (subst session_loop.simps) (simp add: loop_body_def sock_defs)

text \<open>
  C9. What the loop does is not what the claim says: an iteration does not decode a
  message by its width. It reads up to 1024 bytes with one \<^verbatim>\<open>recv\<close>, logs and
  dispatches once on the first byte, and drops everything after that byte: the rest of the
  message and any message that arrived in the same piece. What is left of a piece longer
  than 1024 bytes is the next iteration's data. Here for every piece of data, as one
  iteration and as the loop.
\<close>

theorem loop_dispatches_once_per_recv:
  "loop_body \<lparr>conn = \<lparr>inbound = (msg_type # tail) # rest, ending = e, timeout = t, sent = snt,
                       closed = c\<rparr>, log = lg\<rparr>
   = Some (Continue,
       \<lparr>conn = \<lparr>inbound = (if length tail < 1024 then rest
                            else drop 1024 (msg_type # tail) # rest),
                 ending = e, timeout = Some 1,
                 sent = (if msg_type = 3 then snt @ [fb_update] else snt), closed = c\<rparr>,
        log = lg @ [(msg_type, min 1024 (Suc (length tail)), message_of_type msg_type)]\<rparr>)
   \<and> session_loop \<lparr>conn = \<lparr>inbound = (msg_type # tail) # rest, ending = e, timeout = t,
                            sent = snt, closed = c\<rparr>, log = lg\<rparr>
     = session_loop
         \<lparr>conn = \<lparr>inbound = (if length tail < 1024 then rest
                              else drop 1024 (msg_type # tail) # rest),
                   ending = e, timeout = Some 1,
                   sent = (if msg_type = 3 then snt @ [fb_update] else snt), closed = c\<rparr>,
          log = lg @ [(msg_type, min 1024 (Suc (length tail)), message_of_type msg_type)]\<rparr>"
  using loop_body_data session_loop_data by blast

text \<open>
  C9, the claim as stated fails: a FramebufferUpdateRequest and a KeyEvent (down, keysym
  65) in one piece of 18 bytes are one log entry and one dispatch. The KeyEvent is read
  and never dispatched.
\<close>

theorem loop_decodes_each_message_counterexample:
  "handle_client False
     [RFB_VERSION, [1], [1], framebuffer_update_request 1024 768 @ [4, 1, 0, 0, 0, 0, 0, 65]]
     Closed
   = Some (ClientDisconnected,
       \<lparr>conn = \<lparr>inbound = [], ending = Closed, timeout = Some 1,
                 sent = [RFB_VERSION, [1, 1], [0, 0, 0, 0], server_init False, fb_update],
                 closed = True\<rparr>,
        log = [(3, 18, Some FramebufferUpdateRequest)]\<rparr>)"
  by (simp add: handle_client_def server_step1_def server_step2_def server_step3_def
      server_step4_def server_step5_def server_step6_def server_step7_def server_step8_def
      sock_defs RFB_VERSION_def SECURITY_NONE_def bytes_of_def pack_I_def pack_H_def
      framebuffer_update_request_def message_of_type_def finally_close_def
      session_loop_data session_loop_closed)

section \<open>The server's handshake\<close>

lemma server_step6_data:
  "c \<noteq> [] \<Longrightarrow>
   server_step6 host_be \<lparr>inbound = c # rest, ending = e, timeout = t, sent = snt, closed = cl\<rparr>
   = server_step8
       \<lparr>inbound = (if length c = 1 then rest else drop 1 c # rest), ending = e, timeout = t,
        sent = snt @ [server_init host_be], closed = cl\<rparr>"
  by (cases c) (auto simp add: server_step6_def server_step7_def sock_defs)

lemma server_step4_data:
  "c \<noteq> [] \<Longrightarrow>
   server_step4 host_be \<lparr>inbound = c # rest, ending = e, timeout = t, sent = snt, closed = cl\<rparr>
   = server_step6 host_be
       \<lparr>inbound = (if length c = 1 then rest else drop 1 c # rest), ending = e, timeout = t,
        sent = snt @ [[0, 0, 0, 0]], closed = cl\<rparr>"
  by (cases c) (auto simp add: server_step4_def server_step5_def sock_defs pack_I_def)

lemma server_step2_data:
  "c \<noteq> [] \<Longrightarrow>
   server_step2 host_be \<lparr>inbound = c # rest, ending = e, timeout = t, sent = snt, closed = cl\<rparr>
   = (if length c < 12
      then Some (InvalidClientVersionLength (length c),
             \<lparr>conn = \<lparr>inbound = rest, ending = e, timeout = t, sent = snt, closed = cl\<rparr>,
              log = []\<rparr>)
      else if decode_utf8 (take 12 c) = None
      then Some (ErrorHandlingClient UnicodeDecodeError,
             \<lparr>conn = \<lparr>inbound = (if length c = 12 then rest else drop 12 c # rest),
                       ending = e, timeout = t, sent = snt, closed = cl\<rparr>,
              log = []\<rparr>)
      else server_step4 host_be
             \<lparr>inbound = (if length c = 12 then rest else drop 12 c # rest), ending = e,
              timeout = t, sent = snt @ [[1, 1]], closed = cl\<rparr>)"
  by (auto simp add: server_step2_def server_step3_def sock_defs SECURITY_NONE_def min_def)

text \<open>
  C2. The server does not compare the version it receives with the one it sent. The first
  \<^verbatim>\<open>recv(12)\<close> that returns data decides: fewer than 12 bytes end the call, 12 bytes that
  are not UTF-8 raise in the log line, and every other 12 bytes, whatever version they
  spell, take the server to step 4 with the security types \<open>[1, 1]\<close> sent. A read that
  returns nothing, from a client that has closed the connection, ends the call too.
\<close>

theorem server_accepts_any_version:
  assumes "c \<noteq> []"
  shows "handle_client host_be (c # rest) e
   = (if length c < 12
      then Some (InvalidClientVersionLength (length c),
             \<lparr>conn = \<lparr>inbound = rest, ending = e, timeout = None, sent = [RFB_VERSION],
                       closed = True\<rparr>,
              log = []\<rparr>)
      else if decode_utf8 (take 12 c) = None
      then Some (ErrorHandlingClient UnicodeDecodeError,
             \<lparr>conn = \<lparr>inbound = (if length c = 12 then rest else drop 12 c # rest),
                       ending = e, timeout = None, sent = [RFB_VERSION], closed = True\<rparr>,
              log = []\<rparr>)
      else finally_close
             (server_step4 host_be
                \<lparr>inbound = (if length c = 12 then rest else drop 12 c # rest), ending = e,
                 timeout = None, sent = [RFB_VERSION, [1, 1]], closed = False\<rparr>))
   \<and> handle_client host_be [] Closed
     = Some (InvalidClientVersionLength 0,
         \<lparr>conn = \<lparr>inbound = [], ending = Closed, timeout = None, sent = [RFB_VERSION],
                   closed = True\<rparr>,
          log = []\<rparr>)"
proof -
  have closed: "handle_client host_be [] Closed
     = Some (InvalidClientVersionLength 0,
         \<lparr>conn = \<lparr>inbound = [], ending = Closed, timeout = None, sent = [RFB_VERSION],
                   closed = True\<rparr>,
          log = []\<rparr>)"
    by (simp add: handle_client_def server_step1_def server_step2_def finally_close_def
        sock_defs)
  show ?thesis
    using assms
    by (simp add: closed)
      (simp add: handle_client_def server_step1_def new_socket_def sendall_def
        server_step2_data finally_close_def close_def)
qed

theorem server_accepts_any_version_witness:
  "bytes_of ''RFB 003.003'' @ [10] \<noteq> []
   \<and> bytes_of ''RFB 003.003'' @ [10] \<noteq> RFB_VERSION
   \<and> handle_client False [bytes_of ''RFB 003.003'' @ [10]] Closed
     = Some (InvalidSecuritySelection,
         \<lparr>conn = \<lparr>inbound = [], ending = Closed, timeout = None,
                   sent = [RFB_VERSION, [1, 1]], closed = True\<rparr>,
          log = []\<rparr>)"
  using server_accepts_any_version [of "bytes_of ''RFB 003.003'' @ [10]" False "[]" Closed]
  by (simp add: bytes_of_def RFB_VERSION_def finally_close_def server_step4_def sock_defs)

text \<open>
  C2, the claim as stated fails: the client answers \<^verbatim>\<open>RFB 003.003\<close> to the server's
  \<^verbatim>\<open>RFB 003.008\<close>, and the server sends the security types, the result and ServerInit.
\<close>

theorem server_rejects_version_mismatch_counterexample:
  "bytes_of ''RFB 003.003'' @ [10] \<noteq> RFB_VERSION
   \<and> handle_client False [bytes_of ''RFB 003.003'' @ [10], [1], [1]] Closed
     = Some (ClientDisconnected,
         \<lparr>conn = \<lparr>inbound = [], ending = Closed, timeout = Some 1,
                   sent = [RFB_VERSION, [1, 1], [0, 0, 0, 0], server_init False],
                   closed = True\<rparr>,
          log = []\<rparr>)"
  by (simp add: handle_client_def server_step1_def new_socket_def sendall_def
      server_step2_data server_step4_data server_step6_data server_step8_def
      session_loop_closed finally_close_def close_def bytes_of_def RFB_VERSION_def)

text \<open>
  C3. The server does not look at the security type the client selects. After a 12-byte
  UTF-8 version, every \<^verbatim>\<open>recv(1)\<close> that returns a byte, whatever its value, takes the
  server to step 6 with the result 0 sent; the call ends at this step only when the read
  returns nothing, which a closed connection does.
\<close>

theorem server_accepts_any_security_type:
  assumes "length v = 12" and "decode_utf8 v \<noteq> None" and "c \<noteq> []"
  shows "handle_client host_be (v # c # rest) e
   = finally_close
       (server_step6 host_be
          \<lparr>inbound = (if length c = 1 then rest else drop 1 c # rest), ending = e,
           timeout = None, sent = [RFB_VERSION, [1, 1], [0, 0, 0, 0]], closed = False\<rparr>)
   \<and> handle_client host_be [v] Closed
     = Some (InvalidSecuritySelection,
         \<lparr>conn = \<lparr>inbound = [], ending = Closed, timeout = None,
                   sent = [RFB_VERSION, [1, 1]], closed = True\<rparr>,
          log = []\<rparr>)"
proof -
  from assms have v: "v \<noteq> []" "\<not> length v < 12" "take 12 v = v" by auto
  have step2:
    "handle_client host_be (v # cs) e'
     = finally_close
         (server_step4 host_be
            \<lparr>inbound = cs, ending = e', timeout = None, sent = [RFB_VERSION, [1, 1]],
             closed = False\<rparr>)"
    for cs e'
    using assms(1,2) v
    by (auto simp add: handle_client_def server_step1_def new_socket_def sendall_def
        server_step2_data)
  have closed:
    "server_step4 host_be
       \<lparr>inbound = [], ending = Closed, timeout = None, sent = [RFB_VERSION, [1, 1]],
        closed = False\<rparr>
     = Some (InvalidSecuritySelection,
         \<lparr>conn = \<lparr>inbound = [], ending = Closed, timeout = None,
                   sent = [RFB_VERSION, [1, 1]], closed = False\<rparr>,
          log = []\<rparr>)"
    by (simp add: server_step4_def sock_defs)
  show ?thesis
    using assms(3) by (simp add: step2 server_step4_data closed finally_close_def close_def)
qed

theorem server_accepts_any_security_type_witness:
  "length RFB_VERSION = 12 \<and> decode_utf8 RFB_VERSION \<noteq> None \<and> [2 :: byte] \<noteq> []
   \<and> 2 \<notin> set [SECURITY_NONE]
   \<and> handle_client False [RFB_VERSION, [2]] Closed
     = Some (InvalidClientInit,
         \<lparr>conn = \<lparr>inbound = [], ending = Closed, timeout = None,
                   sent = [RFB_VERSION, [1, 1], [0, 0, 0, 0]], closed = True\<rparr>,
          log = []\<rparr>)"
  using server_accepts_any_security_type [of RFB_VERSION "[2]" False "[]" Closed]
  by (simp add: RFB_VERSION_def bytes_of_def SECURITY_NONE_def finally_close_def
      server_step6_def sock_defs)

text \<open>
  C3, the claim as stated fails: the server offered type 1 only, the client selects
  type 2, and the server answers with the result 0 and, after ClientInit, ServerInit.
\<close>

theorem server_rejects_unoffered_type_counterexample:
  "2 \<notin> set [SECURITY_NONE]
   \<and> handle_client False [RFB_VERSION, [2], [1]] Closed
     = Some (ClientDisconnected,
         \<lparr>conn = \<lparr>inbound = [], ending = Closed, timeout = Some 1,
                   sent = [RFB_VERSION, [1, 1], [0, 0, 0, 0], server_init False],
                   closed = True\<rparr>,
          log = []\<rparr>)"
  by (simp add: handle_client_def server_step1_def new_socket_def sendall_def
      server_step2_data server_step4_data server_step6_data server_step8_def
      session_loop_closed finally_close_def close_def bytes_of_def RFB_VERSION_def
      SECURITY_NONE_def)

section \<open>The client never blocks\<close>

text \<open>
  The client sets a timeout before it connects and never removes it, so none of its
  \<^verbatim>\<open>recv\<close> calls blocks: every step returns, on every input.
\<close>

lemma recv_not_Blocked: "timeout s \<noteq> None \<Longrightarrow> recv n s \<noteq> Blocked"
  by (auto simp add: recv_def split: option.splits ending.splits prod.splits)

lemma recv_Received_same:
  "recv n s = Received d s' \<Longrightarrow>
   timeout s' = timeout s \<and> sent s' = sent s \<and> closed s' = closed s \<and> ending s' = ending s"
  by (auto simp add: recv_def split: option.splits ending.splits prod.splits if_splits)

lemma recv_then_total:
  assumes "timeout s \<noteq> None"
    and "\<And>d s'. timeout s' \<noteq> None \<Longrightarrow> k d s' \<noteq> None"
  shows "recv_then n s k \<noteq> None"
proof (cases "recv n s")
  case (Received d s')
  then have "timeout s' \<noteq> None" using assms(1) recv_Received_same by fastforce
  then show ?thesis using Received assms(2) by (simp add: recv_then_def)
next
  case TimedOut
  then show ?thesis by (simp add: recv_then_def)
next
  case Blocked
  then show ?thesis using assms(1) recv_not_Blocked by blast
qed

lemma client_step8_total: "client_step8 p s \<noteq> None"
proof -
  have "recv 4 (settimeout 2 (sendall m s)) \<noteq> Blocked" for m
    by (rule recv_not_Blocked) (simp add: settimeout_def)
  then show ?thesis
    by (simp add: client_step8_def Let_def split: recv_result.splits)
qed

lemma client_step7_total:
  assumes "timeout s \<noteq> None"
  shows "client_step7 s \<noteq> None"
  unfolding client_step7_def
proof (rule recv_then_total [OF assms])
  fix init and s1 :: sock
  assume t1: "timeout s1 \<noteq> None"
  have name: "recv_then (unat n) s2
         (\<lambda>raw s3. case decode_utf8 raw of
                      None \<Rightarrow> Some (handler UnicodeDecodeError, s3)
                    | Some desktop \<Rightarrow> client_step8 (p\<lparr>name := desktop\<rparr>) s3) \<noteq> None"
    if "timeout s2 \<noteq> None" for n p and s2 :: sock
    using that
  proof (rule recv_then_total)
    fix raw and s3 :: sock
    show "(case decode_utf8 raw of
             None \<Rightarrow> Some (handler UnicodeDecodeError, s3)
           | Some desktop \<Rightarrow> client_step8 (p\<lparr>name := desktop\<rparr>) s3) \<noteq> None"
      by (cases "decode_utf8 raw") (simp_all add: client_step8_total del: not_None_eq)
  qed
  have len: "recv_then 4 s1
         (\<lambda>len s2. case unpack_I len of
                      None \<Rightarrow> Some (handler struct_error, s2)
                    | Some name_length \<Rightarrow>
                        recv_then (unat name_length) s2
                          (\<lambda>raw s3. case decode_utf8 raw of
                                       None \<Rightarrow> Some (handler UnicodeDecodeError, s3)
                                     | Some desktop \<Rightarrow>
                                         client_step8 (p\<lparr>name := desktop\<rparr>) s3)) \<noteq> None"
    for p
    using t1
  proof (rule recv_then_total)
    fix d and s2 :: sock
    assume "timeout s2 \<noteq> None"
    then show "(case unpack_I d of
                  None \<Rightarrow> Some (handler struct_error, s2)
                | Some name_length \<Rightarrow>
                    recv_then (unat name_length) s2
                      (\<lambda>raw s3. case decode_utf8 raw of
                                   None \<Rightarrow> Some (handler UnicodeDecodeError, s3)
                                 | Some desktop \<Rightarrow>
                                     client_step8 (p\<lparr>name := desktop\<rparr>) s3)) \<noteq> None"
      using name by (cases "unpack_I d") simp_all
  qed
  show "(if length init \<noteq> 24 then Some (InvalidServerInitLength (length init), s1)
         else case parse_server_init init of
                None \<Rightarrow> Some (handler struct_error, s1)
              | Some p \<Rightarrow>
                  recv_then 4 s1
                    (\<lambda>len s2. case unpack_I len of
                                 None \<Rightarrow> Some (handler struct_error, s2)
                               | Some name_length \<Rightarrow>
                                   recv_then (unat name_length) s2
                                     (\<lambda>raw s3. case decode_utf8 raw of
                                                  None \<Rightarrow>
                                                    Some (handler UnicodeDecodeError, s3)
                                                | Some desktop \<Rightarrow>
                                                    client_step8 (p\<lparr>name := desktop\<rparr>) s3)))
        \<noteq> None"
    using len by (cases "parse_server_init init") simp_all
qed

lemma read_reason_total:
  assumes t: "timeout s \<noteq> None"
  shows "read_reason s \<noteq> None"
proof (cases "recv 4 s")
  case (Received len s1)
  then have t1: "timeout s1 \<noteq> None" using t recv_Received_same by fastforce
  show ?thesis
  proof (cases "unpack_I len")
    case None
    then show ?thesis using Received by (simp add: read_reason_def)
  next
    case (Some n)
    have "recv (unat n) s1 \<noteq> Blocked" using t1 by (rule recv_not_Blocked)
    then show ?thesis using Received Some
      by (simp add: read_reason_def split: recv_result.splits option.splits)
  qed
next
  case TimedOut
  then show ?thesis by (simp add: read_reason_def)
next
  case Blocked
  then show ?thesis using t recv_not_Blocked by blast
qed

lemma read_reason_same:
  "read_reason s = Some (r, s') \<Longrightarrow>
   timeout s' = timeout s \<and> sent s' = sent s \<and> closed s' = closed s"
  by (auto simp add: read_reason_def split: recv_result.splits option.splits
      dest!: recv_Received_same)

lemma recv_security_types_total:
  "timeout s \<noteq> None \<Longrightarrow> recv_security_types k s acc \<noteq> None"
proof (induction k arbitrary: s acc)
  case 0
  then show ?case by simp
next
  case (Suc k)
  show ?case
  proof (cases "recv 1 s")
    case (Received d s1)
    then have "timeout s1 \<noteq> None" using Suc.prems recv_Received_same by fastforce
    then have "recv_security_types k s1 acc' \<noteq> None" for acc' by (rule Suc.IH)
    then show ?thesis using Received by (simp split: option.splits)
  next
    case TimedOut
    then show ?thesis by simp
  next
    case Blocked
    then show ?thesis using Suc.prems recv_not_Blocked by blast
  qed
qed

lemma recv_security_types_same:
  "recv_security_types k s acc = Some (r, s') \<Longrightarrow>
   timeout s' = timeout s \<and> sent s' = sent s \<and> closed s' = closed s"
proof (induction k arbitrary: s acc)
  case 0
  then show ?case by simp
next
  case (Suc k)
  then show ?case
    by (auto split: recv_result.splits option.splits dest!: recv_Received_same)
qed

lemma client_step6_total: "timeout s \<noteq> None \<Longrightarrow> client_step6 s \<noteq> None"
  unfolding client_step6_def by (rule client_step7_total) (simp add: sendall_def)

lemma client_step5_total:
  assumes "timeout s \<noteq> None"
  shows "client_step5 s \<noteq> None"
  unfolding client_step5_def
proof (rule recv_then_total [OF assms])
  fix d and s' :: sock
  assume t': "timeout s' \<noteq> None"
  have "read_reason s' \<noteq> None" using t' by (rule read_reason_total)
  then obtain r s2 where rr: "read_reason s' = Some (r, s2)" by fastforce
  have "client_step6 s' \<noteq> None" using t' by (rule client_step6_total)
  then obtain r6 where r6: "client_step6 s' = Some r6" by blast
  show "(case unpack_I d of
           None \<Rightarrow> Some (handler struct_error, s')
         | Some security_result \<Rightarrow>
             if security_result \<noteq> 0
             then case read_reason s' of None \<Rightarrow> None
                  | Some (Inl e, s2) \<Rightarrow> Some (SecurityHandshakeFailed security_result None, s2)
                  | Some (Inr reason, s2) \<Rightarrow>
                      Some (SecurityHandshakeFailed security_result (Some reason), s2)
             else client_step6 s') \<noteq> None"
    by (cases "unpack_I d"; cases r) (simp_all add: rr r6)
qed

lemma client_step4_total: "timeout s \<noteq> None \<Longrightarrow> client_step4 ts s \<noteq> None"
proof -
  assume "timeout s \<noteq> None"
  then have "client_step5 (sendall [1] s) \<noteq> None"
    by (intro client_step5_total) (simp add: sendall_def)
  then show ?thesis by (simp add: client_step4_def)
qed

lemma client_step3_total:
  assumes "timeout s \<noteq> None"
  shows "client_step3 s \<noteq> None"
  unfolding client_step3_def
proof (rule recv_then_total [OF assms])
  fix d and s' :: sock
  assume t': "timeout s' \<noteq> None"
  have "read_reason s' \<noteq> None" using t' by (rule read_reason_total)
  then obtain r s2 where rr: "read_reason s' = Some (r, s2)" by fastforce
  show "(case unpack_B d of
           None \<Rightarrow> Some (handler struct_error, s')
         | Some num_types \<Rightarrow>
             if num_types = 0
             then case read_reason s' of None \<Rightarrow> None
                  | Some (Inl e, s2) \<Rightarrow> Some (handler e, s2)
                  | Some (Inr reason, s2) \<Rightarrow> Some (ConnectionFailed reason, s2)
             else case recv_security_types (unat num_types) s' [] of None \<Rightarrow> None
                  | Some (Inl e, s2) \<Rightarrow> Some (handler e, s2)
                  | Some (Inr security_types, s2) \<Rightarrow> client_step4 security_types s2) \<noteq> None"
  proof (cases "unpack_B d")
    case None
    then show ?thesis by simp
  next
    case (Some k)
    have "recv_security_types (unat k) s' [] \<noteq> None"
      using t' by (rule recv_security_types_total)
    then obtain r' s3 where r3: "recv_security_types (unat k) s' [] = Some (r', s3)"
      by fastforce
    then have "timeout s3 \<noteq> None" using t' recv_security_types_same by fastforce
    then have "client_step4 ts s3 \<noteq> None" for ts by (rule client_step4_total)
    then show ?thesis using Some rr r3 by (cases r; cases r') auto
  qed
qed



section \<open>The client's handshake, step by step\<close>

text \<open>
  Where the client is after each message of the server, when the message arrives as a
  piece of its own: after an accepted version, after an offer that has type 1, after the
  result 0.
\<close>

lemma recv_data:
  "c \<noteq> [] \<Longrightarrow> 0 < n \<Longrightarrow>
   recv n \<lparr>inbound = c # cs, ending = e, timeout = t, sent = snt, closed = cl\<rparr>
   = Received (take n c)
       \<lparr>inbound = (if length c \<le> n then cs else drop n c # cs), ending = e, timeout = t,
        sent = snt, closed = cl\<rparr>"
  by (simp add: recv_def)

lemma client_after_version:
  assumes "length v = 12" and "decode_ascii v = Some d"
    and "startswith (strip d) (str_of ''RFB 003.'')"
  shows "test_vnc_handshake ((v @ tail) # rest) e
   = client_step3 \<lparr>inbound = (if tail = [] then rest else tail # rest), ending = e,
                   timeout = Some 5, sent = [v], closed = False\<rparr>"
proof -
  from assms(1) have "v \<noteq> []" by auto
  then show ?thesis
    using assms
    by (simp add: test_vnc_handshake_def client_step1_def client_step2_def recv_then_def
        new_socket_def settimeout_def sendall_def recv_data)
qed

lemma recv_security_types_chunk:
  "types \<noteq> [] \<Longrightarrow>
   recv_security_types (length types)
     \<lparr>inbound = types # rest, ending = e, timeout = t, sent = snt, closed = cl\<rparr> acc
   = Some (Inr (acc @ types),
       \<lparr>inbound = rest, ending = e, timeout = t, sent = snt, closed = cl\<rparr>)"
proof (induction types arbitrary: acc)
  case Nil
  then show ?case by simp
next
  case (Cons x xs)
  show ?case
  proof (cases "xs = []")
    case True
    then show ?thesis by (simp add: recv_data unpack_B_def)
  next
    case False
    then show ?thesis using Cons.IH [of "acc @ [x]"]
      by (simp add: recv_data unpack_B_def)
  qed
qed

lemma client_after_offer:
  assumes "k \<noteq> 0" and "length types = unat k" and "1 \<in> set types"
  shows "client_step3
           \<lparr>inbound = (k # types) # rest, ending = e, timeout = t, sent = snt, closed = cl\<rparr>
   = client_step5
       \<lparr>inbound = rest, ending = e, timeout = t, sent = snt @ [[1]], closed = cl\<rparr>"
proof -
  from assms(3) have ne: "types \<noteq> []" by auto
  with assms(2) have "unat k \<noteq> 0" by (metis length_0_conv)
  then show ?thesis
    using assms ne recv_security_types_chunk [OF ne, of rest e t snt cl "[]"]
    by (simp add: client_step3_def client_step4_def recv_then_def recv_data unpack_B_def
        sendall_def)
qed

lemma client_after_result:
  "be32 a b c d = 0 \<Longrightarrow>
   client_step5
     \<lparr>inbound = ([a, b, c, d] @ tail) # rest, ending = e, timeout = t, sent = snt,
      closed = cl\<rparr>
   = client_step7
       \<lparr>inbound = (if tail = [] then rest else tail # rest), ending = e, timeout = t,
        sent = snt @ [[1]], closed = cl\<rparr>"
  by (simp add: client_step5_def client_step6_def recv_then_def recv_data unpack_I_def
      sendall_def)

lemma be32_zero: "be32 0 0 0 0 = 0"
  by (simp add: be32_def)

text \<open>
  C7 (scenario C). After an accepted version, an offer with type 1 and the result 0, the
  \<^verbatim>\<open>recv(24)\<close> of ServerInit returns fewer than 24 bytes: some bytes of it, or none
  because the server has closed the connection. The client returns False from its check of
  the length of ServerInit, the branch that stands for the spec's TruncatedFrame; it
  has parsed no width, height or name and sent nothing after ClientInit.
\<close>

theorem client_short_server_init_fails:
  assumes "length v = 12" and "decode_ascii v = Some d"
    and "startswith (strip d) (str_of ''RFB 003.'')"
    and "k \<noteq> 0" and "length types = unat k" and "1 \<in> set types"
    and "length part < 24" and "part \<noteq> [] \<or> (rest = [] \<and> e = Closed)"
  shows "test_vnc_handshake (v # (k # types) # [0, 0, 0, 0] # part # rest) e
   = Some (InvalidServerInitLength (length part),
       \<lparr>inbound = (if part = [] then [] else rest), ending = e, timeout = Some 5,
        sent = [v, [1], [1]], closed = False\<rparr>)
   \<and> \<not> returns (InvalidServerInitLength (length part))"
proof -
  have "test_vnc_handshake (v # (k # types) # [0, 0, 0, 0] # part # rest) e
    = client_step7 \<lparr>inbound = part # rest, ending = e, timeout = Some 5,
                    sent = [v, [1], [1]], closed = False\<rparr>"
    using client_after_version [OF assms(1-3), of "[]"]
      client_after_offer [OF assms(4-6)] client_after_result [OF be32_zero, of "[]"]
    by simp
  moreover have "client_step7 \<lparr>inbound = part # rest, ending = e, timeout = Some 5,
                    sent = [v, [1], [1]], closed = False\<rparr>
    = Some (InvalidServerInitLength (length part),
       \<lparr>inbound = (if part = [] then [] else rest), ending = e, timeout = Some 5,
        sent = [v, [1], [1]], closed = False\<rparr>)"
    using assms(7,8)
    by (cases "part = []") (auto simp add: client_step7_def recv_then_def recv_data recv_def)
  ultimately show ?thesis by (simp add: returns_def)
qed

theorem client_short_server_init_fails_witness:
  "length RFB_VERSION = 12
   \<and> decode_ascii RFB_VERSION = Some (str_of ''RFB 003.008'' @ [10])
   \<and> startswith (strip (str_of ''RFB 003.008'' @ [10])) (str_of ''RFB 003.'')
   \<and> (1 :: byte) \<noteq> 0 \<and> length [1 :: byte] = unat (1 :: byte) \<and> (1 :: byte) \<in> set [1]
   \<and> length (take 10 (server_init False)) < 24 \<and> take 10 (server_init False) \<noteq> []
   \<and> test_vnc_handshake [RFB_VERSION, [1, 1], [0, 0, 0, 0], take 10 (server_init False)] Closed
     = Some (InvalidServerInitLength 10,
         \<lparr>inbound = [], ending = Closed, timeout = Some 5, sent = [RFB_VERSION, [1], [1]],
          closed = False\<rparr>)"
  using client_short_server_init_fails
    [of RFB_VERSION "str_of ''RFB 003.008'' @ [10]" 1 "[1]" "take 10 (server_init False)"
      "[]" Closed]
  by (simp add: RFB_VERSION_def codec_defs server_init_def pixel_format_def)

section \<open>The client's failure paths\<close>

text \<open>
  What a \<^verbatim>\<open>recv\<close> returns is the beginning of what was unread, and no more than was
  asked for. So the two lines that read a reason take, from the front of the unread
  bytes, at most the four bytes of a length and as many bytes as that length says; and
  when each of the two reads returns its field whole, they take exactly the length and
  the reason.
\<close>

lemma recv_chunks_consumes:
  "recv_chunks n ps = Some (d, ps') \<Longrightarrow> concat ps = d @ concat ps' \<and> length d \<le> n"
proof (induction ps)
  case Nil
  then show ?case by simp
next
  case (Cons c cs)
  then show ?case by (auto split: if_splits)
qed

lemma recv_chunks_None: "recv_chunks n ps = None \<Longrightarrow> concat ps = []"
  by (induction ps) (auto split: if_splits)

lemma recv_consumes:
  "recv n s = Received d s' \<Longrightarrow> concat (inbound s) = d @ concat (inbound s') \<and> length d \<le> n"
  by (auto simp add: recv_def split: if_splits option.splits ending.splits
      dest: recv_chunks_consumes recv_chunks_None)

lemma read_reason_consumes:
  assumes "read_reason s = Some (r, s')"
  shows "\<exists>consumed. concat (inbound s) = consumed @ concat (inbound s')
           \<and> length consumed
               \<le> 4 + (case unpack_I (take 4 consumed) of None \<Rightarrow> 0 | Some n \<Rightarrow> unat n)"
proof (cases "recv 4 s")
  case (Received d1 s1)
  note r1 = recv_consumes [OF Received]
  show ?thesis
  proof (cases "unpack_I d1")
    case None
    then have "s' = s1" using assms Received by (simp add: read_reason_def)
    then show ?thesis using r1 by (intro exI [of _ d1]) (simp split: option.splits)
  next
    case (Some n)
    then have len: "length d1 = 4" by (auto simp add: unpack_I_def split: list.splits)
    show ?thesis
    proof (cases "recv (unat n) s1")
      case (Received d2 s2)
      note r2 = recv_consumes [OF Received]
      have "s' = s2" using assms \<open>recv 4 s = Received d1 s1\<close> Some Received
        by (auto simp add: read_reason_def split: option.splits)
      then show ?thesis using r1 r2 len Some
        by (intro exI [of _ "d1 @ d2"]) simp
    next
      case TimedOut
      then have "s' = s1" using assms \<open>recv 4 s = Received d1 s1\<close> Some
        by (simp add: read_reason_def)
      then show ?thesis using r1 len Some by (intro exI [of _ d1]) simp
    next
      case Blocked
      then show ?thesis using assms \<open>recv 4 s = Received d1 s1\<close> Some
        by (simp add: read_reason_def)
    qed
  qed
next
  case TimedOut
  then have "s' = s" using assms by (simp add: read_reason_def)
  then show ?thesis by (intro exI [of _ "[]"]) (simp add: unpack_I_def)
next
  case Blocked
  then show ?thesis using assms by (simp add: read_reason_def)
qed

lemma read_reason_whole:
  assumes "recv 4 s = Received [l1, l2, l3, l4] s2"
    and "recv (unat (be32 l1 l2 l3 l4)) s2 = Received reason s3"
  shows "read_reason s
         = Some ((case decode_utf8 reason of None \<Rightarrow> Inl UnicodeDecodeError | Some r \<Rightarrow> Inr r),
                 s3)"
    and "concat (inbound s) = [l1, l2, l3, l4] @ reason @ concat (inbound s3)"
  using assms recv_consumes [OF assms(1)] recv_consumes [OF assms(2)]
  by (simp_all add: read_reason_def unpack_I_def split: option.splits)

text \<open>
  C4. The server's version was accepted and echoed, and the offer that follows starts
  with the count 0. On every continuation the client returns False, and the echo of
  the version, sent before the offer was read, stays the only thing it has sent: no
  ClientInit, nothing after the offer. It reads the reason with one \<^verbatim>\<open>recv(4)\<close> and one
  \<^verbatim>\<open>recv(reason_length)\<close>: what it consumes is the front of the bytes after the count
  and never goes past the one length-prefixed string. When the first read returns the
  four bytes of the length and the second as many bytes as the length says, in whatever
  pieces they arrive, the client has consumed exactly that string, and fails with the
  reason if it is UTF-8 and with the decoding error if not.
\<close>

theorem client_refused_fails_after_one_read:
  assumes "length v = 12" and "decode_ascii v = Some d"
    and "startswith (strip d) (str_of ''RFB 003.'')"
  shows "(\<exists>out s consumed.
            test_vnc_handshake (v # (0 # tail) # rest) e = Some (out, s)
            \<and> \<not> returns out \<and> sent s = [v]
            \<and> tail @ concat rest = consumed @ concat (inbound s)
            \<and> length consumed
                \<le> 4 + (case unpack_I (take 4 consumed) of None \<Rightarrow> 0 | Some n \<Rightarrow> unat n))
   \<and> (recv 4 \<lparr>inbound = (if tail = [] then rest else tail # rest), ending = e,
                timeout = Some 5, sent = [v], closed = False\<rparr>
          = Received [l1, l2, l3, l4] s2
        \<and> recv (unat (be32 l1 l2 l3 l4)) s2 = Received reason s3
        \<and> length reason = unat (be32 l1 l2 l3 l4)
        \<longrightarrow> test_vnc_handshake (v # (0 # tail) # rest) e
            = Some ((case decode_utf8 reason of
                       None \<Rightarrow> Error UnicodeDecodeError
                     | Some r \<Rightarrow> ConnectionFailed r), s3)
          \<and> tail @ concat rest = [l1, l2, l3, l4] @ reason @ concat (inbound s3))"
proof -
  define s1 where "s1 = \<lparr>inbound = (if tail = [] then rest else tail # rest), ending = e,
                         timeout = Some 5, sent = [v], closed = False\<rparr>"
  have stream: "concat (inbound s1) = tail @ concat rest" by (simp add: s1_def)
  have step3: "test_vnc_handshake (v # (0 # tail) # rest) e
     = (case read_reason s1 of
          None \<Rightarrow> None
        | Some (Inl ex, s2) \<Rightarrow> Some (handler ex, s2)
        | Some (Inr reason, s2) \<Rightarrow> Some (ConnectionFailed reason, s2))"
    using client_after_version [OF assms, of "[]"]
    by (simp add: client_step3_def recv_then_def recv_data unpack_B_def s1_def)
  have "read_reason s1 \<noteq> None"
    by (rule read_reason_total) (simp add: s1_def)
  then obtain res s' where rr: "read_reason s1 = Some (res, s')" by fastforce
  then have snt: "sent s' = [v]" using read_reason_same [OF rr] by (simp add: s1_def)
  obtain consumed where consumed: "concat (inbound s1) = consumed @ concat (inbound s')"
    "length consumed
       \<le> 4 + (case unpack_I (take 4 consumed) of None \<Rightarrow> 0 | Some n \<Rightarrow> unat n)"
    using read_reason_consumes [OF rr] by blast
  have "\<exists>out. test_vnc_handshake (v # (0 # tail) # rest) e = Some (out, s') \<and> \<not> returns out"
    using rr by (cases res) (simp_all add: step3 returns_def handler_def)
  then have A: "\<exists>out s consumed.
            test_vnc_handshake (v # (0 # tail) # rest) e = Some (out, s)
            \<and> \<not> returns out \<and> sent s = [v]
            \<and> tail @ concat rest = consumed @ concat (inbound s)
            \<and> length consumed
                \<le> 4 + (case unpack_I (take 4 consumed) of None \<Rightarrow> 0 | Some n \<Rightarrow> unat n)"
    using snt consumed stream by metis
  have B: "test_vnc_handshake (v # (0 # tail) # rest) e
            = Some ((case decode_utf8 reason of
                       None \<Rightarrow> Error UnicodeDecodeError
                     | Some r \<Rightarrow> ConnectionFailed r), s3)
          \<and> tail @ concat rest = [l1, l2, l3, l4] @ reason @ concat (inbound s3)"
    if "recv 4 s1 = Received [l1, l2, l3, l4] s2"
      and "recv (unat (be32 l1 l2 l3 l4)) s2 = Received reason s3"
    using read_reason_whole [OF that] stream
    by (cases "decode_utf8 reason") (simp_all add: step3 handler_def)
  from A B show ?thesis unfolding s1_def by blast
qed

theorem client_refused_fails_after_one_read_witness:
  "length RFB_VERSION = 12
   \<and> decode_ascii RFB_VERSION = Some (str_of ''RFB 003.008'' @ [10])
   \<and> startswith (strip (str_of ''RFB 003.008'' @ [10])) (str_of ''RFB 003.'')
   \<and> recv 4 \<lparr>inbound = [[0, 0, 0, 2], bytes_of ''no'' @ [7]], ending = Closed,
               timeout = Some 5, sent = [RFB_VERSION], closed = False\<rparr>
     = Received [0, 0, 0, 2]
         \<lparr>inbound = [bytes_of ''no'' @ [7]], ending = Closed, timeout = Some 5,
          sent = [RFB_VERSION], closed = False\<rparr>
   \<and> recv (unat (be32 0 0 0 2))
         \<lparr>inbound = [bytes_of ''no'' @ [7]], ending = Closed, timeout = Some 5,
          sent = [RFB_VERSION], closed = False\<rparr>
     = Received (bytes_of ''no'')
         \<lparr>inbound = [[7]], ending = Closed, timeout = Some 5, sent = [RFB_VERSION],
          closed = False\<rparr>
   \<and> length (bytes_of ''no'') = unat (be32 0 0 0 2)
   \<and> test_vnc_handshake [RFB_VERSION, [0], [0, 0, 0, 2], bytes_of ''no'' @ [7]] Closed
     = Some (ConnectionFailed (str_of ''no''),
         \<lparr>inbound = [[7]], ending = Closed, timeout = Some 5, sent = [RFB_VERSION],
          closed = False\<rparr>)"
  using client_refused_fails_after_one_read
    [where v = RFB_VERSION and d = "str_of ''RFB 003.008'' @ [10]" and tail = "[]"
      and rest = "[[0, 0, 0, 2], bytes_of ''no'' @ [7]]" and e = Closed
      and ?l1.0 = 0 and ?l2.0 = 0 and ?l3.0 = 0 and ?l4.0 = 2
      and ?s2.0 = "\<lparr>inbound = [bytes_of ''no'' @ [7]], ending = Closed, timeout = Some 5,
          sent = [RFB_VERSION], closed = False\<rparr>"
      and reason = "bytes_of ''no''"
      and ?s3.0 = "\<lparr>inbound = [[7]], ending = Closed, timeout = Some 5,
          sent = [RFB_VERSION], closed = False\<rparr>"]
  by (simp add: RFB_VERSION_def codec_defs recv_def)

text \<open>
  C4, the claim as stated fails: a reason of five bytes arrives in two pieces, two bytes
  with the count and the length and three bytes later. The single \<^verbatim>\<open>recv(5)\<close> returns
  the two bytes, the client fails with the reason \<^verbatim>\<open>he\<close>, and the rest of the reason
  stays unread. The 12 bytes of the version echo have been sent on the connection.
\<close>

theorem client_refused_reads_whole_reason_counterexample:
  "test_vnc_handshake
     [RFB_VERSION, 0 # [0, 0, 0, 5] @ bytes_of ''he'', bytes_of ''llo''] Closed
   = Some (ConnectionFailed (str_of ''he''),
       \<lparr>inbound = [bytes_of ''llo''], ending = Closed, timeout = Some 5,
        sent = [RFB_VERSION], closed = False\<rparr>)
   \<and> unat (be32 0 0 0 5) = 5 \<and> length (bytes_of ''he'') = 2
   \<and> [RFB_VERSION] \<noteq> []"
  by (simp add: codec_defs sock_defs client_defs RFB_VERSION_def)

section \<open>What the client sends only grows\<close>

lemma recv_then_sent:
  assumes "recv_then n s k = Some (out, s')"
    and "\<And>d s1. sent s1 = sent s \<Longrightarrow> k d s1 = Some (out, s') \<Longrightarrow> prefix (sent s1) (sent s')"
  shows "prefix (sent s) (sent s')"
proof (cases "recv n s")
  case (Received d s1)
  then have "sent s1 = sent s" using recv_Received_same by blast
  moreover have "k d s1 = Some (out, s')" using assms(1) Received by (simp add: recv_then_def)
  ultimately show ?thesis using assms(2) by fastforce
next
  case TimedOut
  then show ?thesis using assms(1) by (simp add: recv_then_def)
next
  case Blocked
  then show ?thesis using assms(1) by (simp add: recv_then_def)
qed

lemma client_step8_sent:
  assumes "client_step8 p s = Some (out, s')"
  shows "prefix (sent s) (sent s')"
proof (cases "recv 4 (settimeout 2 (sendall (framebuffer_update_request (width p) (height p)) s))")
  case (Received d s3)
  then have "sent s3 = sent s @ [framebuffer_update_request (width p) (height p)]"
    using recv_Received_same [OF Received] by (simp add: settimeout_def sendall_def)
  then show ?thesis using assms Received
    by (auto simp add: client_step8_def Let_def close_def)
next
  case TimedOut
  then show ?thesis using assms
    by (auto simp add: client_step8_def Let_def close_def settimeout_def sendall_def)
next
  case Blocked
  then show ?thesis using assms by (simp add: client_step8_def Let_def)
qed

lemma client_step7_sent:
  assumes "client_step7 s = Some (out, s')"
  shows "prefix (sent s) (sent s')"
  using assms unfolding client_step7_def
proof (rule recv_then_sent)
  fix init and s1 :: sock
  assume "(if length init \<noteq> 24 then Some (InvalidServerInitLength (length init), s1)
           else case parse_server_init init of
                  None \<Rightarrow> Some (handler struct_error, s1)
                | Some p \<Rightarrow>
                    recv_then 4 s1
                      (\<lambda>len s2. case unpack_I len of
                                   None \<Rightarrow> Some (handler struct_error, s2)
                                 | Some name_length \<Rightarrow>
                                     recv_then (unat name_length) s2
                                       (\<lambda>raw s3. case decode_utf8 raw of
                                                    None \<Rightarrow>
                                                      Some (handler UnicodeDecodeError, s3)
                                                  | Some desktop \<Rightarrow>
                                                      client_step8 (p\<lparr>name := desktop\<rparr>) s3)))
          = Some (out, s')"
  then consider "s' = s1"
    | p where "recv_then 4 s1
                      (\<lambda>len s2. case unpack_I len of
                                   None \<Rightarrow> Some (handler struct_error, s2)
                                 | Some name_length \<Rightarrow>
                                     recv_then (unat name_length) s2
                                       (\<lambda>raw s3. case decode_utf8 raw of
                                                    None \<Rightarrow>
                                                      Some (handler UnicodeDecodeError, s3)
                                                  | Some desktop \<Rightarrow>
                                                      client_step8 (p\<lparr>name := desktop\<rparr>) s3))
          = Some (out, s')"
    by (auto split: if_splits option.splits)
  then show "prefix (sent s1) (sent s')"
  proof cases
    case 1
    then show ?thesis by simp
  next
    case 2
    then show ?thesis
    proof (rule recv_then_sent)
      fix len and s2 :: sock
      assume "(case unpack_I len of
                 None \<Rightarrow> Some (handler struct_error, s2)
               | Some name_length \<Rightarrow>
                   recv_then (unat name_length) s2
                     (\<lambda>raw s3. case decode_utf8 raw of
                                  None \<Rightarrow> Some (handler UnicodeDecodeError, s3)
                                | Some desktop \<Rightarrow> client_step8 (p\<lparr>name := desktop\<rparr>) s3))
              = Some (out, s')"
      then consider "s' = s2"
        | n where "recv_then n s2
                     (\<lambda>raw s3. case decode_utf8 raw of
                                  None \<Rightarrow> Some (handler UnicodeDecodeError, s3)
                                | Some desktop \<Rightarrow> client_step8 (p\<lparr>name := desktop\<rparr>) s3)
              = Some (out, s')"
        by (auto split: option.splits)
      then show "prefix (sent s2) (sent s')"
      proof cases
        case 1
        then show ?thesis by simp
      next
        case 2
        then show ?thesis
        proof (rule recv_then_sent)
          fix raw and s3 :: sock
          assume "(case decode_utf8 raw of
                     None \<Rightarrow> Some (handler UnicodeDecodeError, s3)
                   | Some desktop \<Rightarrow> client_step8 (p\<lparr>name := desktop\<rparr>) s3)
                  = Some (out, s')"
          then show "prefix (sent s3) (sent s')"
            by (auto split: option.splits dest: client_step8_sent)
        qed
      qed
    qed
  qed
qed

lemma client_step5_sent:
  assumes "client_step5 s = Some (out, s')"
  shows "prefix (sent s) (sent s')"
  using assms unfolding client_step5_def
proof (rule recv_then_sent)
  fix res and s1 :: sock
  assume "(case unpack_I res of
             None \<Rightarrow> Some (handler struct_error, s1)
           | Some security_result \<Rightarrow>
               if security_result \<noteq> 0
               then case read_reason s1 of None \<Rightarrow> None
                    | Some (Inl e, s2) \<Rightarrow> Some (SecurityHandshakeFailed security_result None, s2)
                    | Some (Inr reason, s2) \<Rightarrow>
                        Some (SecurityHandshakeFailed security_result (Some reason), s2)
               else client_step6 s1) = Some (out, s')"
  then consider "s' = s1" | r where "read_reason s1 = Some (r, s')"
    | "client_step7 (sendall [1] s1) = Some (out, s')"
    by (auto simp add: client_step6_def split: option.splits if_splits sum.splits)
  then show "prefix (sent s1) (sent s')"
  proof cases
    case 1
    then show ?thesis by simp
  next
    case 2
    then show ?thesis using read_reason_same by fastforce
  next
    case 3
    then have "prefix (sent (sendall [1] s1)) (sent s')" by (rule client_step7_sent)
    then show ?thesis by (auto simp add: sendall_def dest: append_prefixD)
  qed
qed

lemma client_step3_sent:
  assumes "client_step3 s = Some (out, s')"
  shows "prefix (sent s) (sent s')"
  using assms unfolding client_step3_def
proof (rule recv_then_sent)
  fix data and s1 :: sock
  assume "(case unpack_B data of
             None \<Rightarrow> Some (handler struct_error, s1)
           | Some num_types \<Rightarrow>
               if num_types = 0
               then case read_reason s1 of None \<Rightarrow> None
                    | Some (Inl e, s2) \<Rightarrow> Some (handler e, s2)
                    | Some (Inr reason, s2) \<Rightarrow> Some (ConnectionFailed reason, s2)
               else case recv_security_types (unat num_types) s1 [] of None \<Rightarrow> None
                    | Some (Inl e, s2) \<Rightarrow> Some (handler e, s2)
                    | Some (Inr security_types, s2) \<Rightarrow> client_step4 security_types s2)
          = Some (out, s')"
  then consider "s' = s1" | r where "read_reason s1 = Some (r, s')"
    | k r where "recv_security_types k s1 [] = Some (r, s')"
    | k ts s2 where "recv_security_types k s1 [] = Some (Inr ts, s2)"
        and "client_step5 (sendall [1] s2) = Some (out, s')"
    by (auto simp add: client_step4_def split: option.splits if_splits sum.splits)
  then show "prefix (sent s1) (sent s')"
  proof cases
    case 1
    then show ?thesis by simp
  next
    case 2
    then show ?thesis using read_reason_same by fastforce
  next
    case 3
    then show ?thesis using recv_security_types_same by fastforce
  next
    case 4
    from 4(2) have "prefix (sent (sendall [1] s2)) (sent s')" by (rule client_step5_sent)
    moreover have "sent s2 = sent s1" using recv_security_types_same [OF 4(1)] by simp
    ultimately show ?thesis by (auto simp add: sendall_def dest: append_prefixD)
  qed
qed

text \<open>
  C5. After an accepted version and an offer with type 1, the four bytes of the security
  result arrive. If they are 0, the third thing the client sends is ClientInit, the byte
  1. If they are not, then on every continuation the client returns False from the
  security failure and has sent nothing after its selection. It tries to read the
  reason with one \<^verbatim>\<open>recv(4)\<close> and one \<^verbatim>\<open>recv(reason_length)\<close>: what it consumes is
  the front of the bytes after the result and never goes past the one length-prefixed
  string. When the first read returns the four bytes of the length and the second as many
  bytes as the length says, in whatever pieces they arrive, the client has consumed
  exactly that string (kept if it is UTF-8, dropped if not).
\<close>

theorem client_security_result_one_read:
  assumes "length v = 12" and "decode_ascii v = Some d"
    and "startswith (strip d) (str_of ''RFB 003.'')"
    and "k \<noteq> 0" and "length types = unat k" and "1 \<in> set types"
  shows "(be32 r1 r2 r3 r4 = 0
        \<longrightarrow> (\<exists>out s. test_vnc_handshake
                        (v # (k # types) # ([r1, r2, r3, r4] @ tail) # rest) e = Some (out, s)
                      \<and> take 3 (sent s) = [v, [1], [1]]))
   \<and> (be32 r1 r2 r3 r4 \<noteq> 0
        \<longrightarrow> (\<exists>reason s consumed.
               test_vnc_handshake (v # (k # types) # ([r1, r2, r3, r4] @ tail) # rest) e
               = Some (SecurityHandshakeFailed (be32 r1 r2 r3 r4) reason, s)
               \<and> sent s = [v, [1]]
               \<and> tail @ concat rest = consumed @ concat (inbound s)
               \<and> length consumed
                   \<le> 4 + (case unpack_I (take 4 consumed) of None \<Rightarrow> 0 | Some n \<Rightarrow> unat n)))
   \<and> (be32 r1 r2 r3 r4 \<noteq> 0
        \<and> recv 4 \<lparr>inbound = (if tail = [] then rest else tail # rest), ending = e,
                    timeout = Some 5, sent = [v, [1]], closed = False\<rparr>
            = Received [l1, l2, l3, l4] s2
        \<and> recv (unat (be32 l1 l2 l3 l4)) s2 = Received reason s3
        \<and> length reason = unat (be32 l1 l2 l3 l4)
        \<longrightarrow> test_vnc_handshake (v # (k # types) # ([r1, r2, r3, r4] @ tail) # rest) e
            = Some (SecurityHandshakeFailed (be32 r1 r2 r3 r4) (decode_utf8 reason), s3)
          \<and> tail @ concat rest = [l1, l2, l3, l4] @ reason @ concat (inbound s3))"
proof -
  define s5 where "s5 cs = \<lparr>inbound = cs, ending = e, timeout = Some 5, sent = [v, [1]],
                            closed = False\<rparr>" for cs :: "bytes list"
  have step5: "test_vnc_handshake (v # (k # types) # cs) e = client_step5 (s5 cs)" for cs
    using client_after_version [OF assms(1-3), of "[]"] client_after_offer [OF assms(4-6)]
    by (simp add: s5_def)
  have zero: "\<exists>out s. test_vnc_handshake
                        (v # (k # types) # ([r1, r2, r3, r4] @ tail) # rest) e = Some (out, s)
                      \<and> take 3 (sent s) = [v, [1], [1]]"
    if z: "be32 r1 r2 r3 r4 = 0"
  proof -
    define s7 where "s7 = \<lparr>inbound = (if tail = [] then rest else tail # rest), ending = e,
                           timeout = Some 5, sent = [v, [1], [1]], closed = False\<rparr>"
    have run: "test_vnc_handshake (v # (k # types) # ([r1, r2, r3, r4] @ tail) # rest) e
      = client_step7 s7"
      using client_after_result [OF z, of tail rest e "Some 5" "[v, [1]]" False]
      by (simp add: step5 s5_def s7_def)
    have "client_step7 s7 \<noteq> None" by (rule client_step7_total) (simp add: s7_def)
    then obtain out s where os: "client_step7 s7 = Some (out, s)" by fastforce
    then have "prefix (sent s7) (sent s)" by (rule client_step7_sent)
    then have "take 3 (sent s) = [v, [1], [1]]" by (auto simp add: s7_def prefix_def)
    then show ?thesis using run os by simp
  qed
  define s6 where "s6 = \<lparr>inbound = (if tail = [] then rest else tail # rest), ending = e,
                         timeout = Some 5, sent = [v, [1]], closed = False\<rparr>"
  have stream: "concat (inbound s6) = tail @ concat rest" by (simp add: s6_def)
  have fail: "test_vnc_handshake (v # (k # types) # ([r1, r2, r3, r4] @ tail) # rest) e
     = (case read_reason s6 of
          None \<Rightarrow> None
        | Some (Inl ex, s2) \<Rightarrow> Some (SecurityHandshakeFailed (be32 r1 r2 r3 r4) None, s2)
        | Some (Inr reason, s2) \<Rightarrow>
            Some (SecurityHandshakeFailed (be32 r1 r2 r3 r4) (Some reason), s2))"
    if "be32 r1 r2 r3 r4 \<noteq> 0"
    using that recv_data [of "[r1, r2, r3, r4] @ tail" 4 rest e "Some 5" "[v, [1]]" False]
    by (simp add: step5 s5_def s6_def client_step5_def recv_then_def unpack_I_def)
  have nonzero: "\<exists>reason s consumed.
               test_vnc_handshake (v # (k # types) # ([r1, r2, r3, r4] @ tail) # rest) e
               = Some (SecurityHandshakeFailed (be32 r1 r2 r3 r4) reason, s)
               \<and> sent s = [v, [1]]
               \<and> tail @ concat rest = consumed @ concat (inbound s)
               \<and> length consumed
                   \<le> 4 + (case unpack_I (take 4 consumed) of None \<Rightarrow> 0 | Some n \<Rightarrow> unat n)"
    if nz: "be32 r1 r2 r3 r4 \<noteq> 0"
  proof -
    have "read_reason s6 \<noteq> None" by (rule read_reason_total) (simp add: s6_def)
    then obtain res s' where rr: "read_reason s6 = Some (res, s')" by fastforce
    then have snt: "sent s' = [v, [1]]" using read_reason_same [OF rr] by (simp add: s6_def)
    obtain consumed where consumed: "tail @ concat rest = consumed @ concat (inbound s')"
      "length consumed
         \<le> 4 + (case unpack_I (take 4 consumed) of None \<Rightarrow> 0 | Some n \<Rightarrow> unat n)"
      using read_reason_consumes [OF rr] stream by auto
    have "\<exists>reason. test_vnc_handshake
                      (v # (k # types) # ([r1, r2, r3, r4] @ tail) # rest) e
               = Some (SecurityHandshakeFailed (be32 r1 r2 r3 r4) reason, s')"
      using rr fail [OF nz] by (cases res) simp_all
    then show ?thesis using snt consumed by blast
  qed
  have whole: "test_vnc_handshake (v # (k # types) # ([r1, r2, r3, r4] @ tail) # rest) e
            = Some (SecurityHandshakeFailed (be32 r1 r2 r3 r4) (decode_utf8 reason), s3)
          \<and> tail @ concat rest = [l1, l2, l3, l4] @ reason @ concat (inbound s3)"
    if nz: "be32 r1 r2 r3 r4 \<noteq> 0"
      and "recv 4 s6 = Received [l1, l2, l3, l4] s2"
      and "recv (unat (be32 l1 l2 l3 l4)) s2 = Received reason s3"
    using read_reason_whole [OF that(2,3)] stream fail [OF nz]
    by (cases "decode_utf8 reason") simp_all
  from zero nonzero whole show ?thesis unfolding s6_def by blast
qed

theorem client_security_result_one_read_witness:
  "length RFB_VERSION = 12
   \<and> decode_ascii RFB_VERSION = Some (str_of ''RFB 003.008'' @ [10])
   \<and> startswith (strip (str_of ''RFB 003.008'' @ [10])) (str_of ''RFB 003.'')
   \<and> (1 :: byte) \<noteq> 0 \<and> length [1 :: byte] = unat (1 :: byte) \<and> (1 :: byte) \<in> set [1]
   \<and> be32 0 0 0 0 = 0
   \<and> (\<exists>out s. test_vnc_handshake [RFB_VERSION, [1, 1], [0, 0, 0, 0]] Closed = Some (out, s)
         \<and> take 3 (sent s) = [RFB_VERSION, [1], [1]])
   \<and> be32 0 0 0 1 \<noteq> 0
   \<and> recv 4 \<lparr>inbound = [[0, 0, 0, 2], bytes_of ''no'' @ [7, 7]], ending = Closed,
               timeout = Some 5, sent = [RFB_VERSION, [1]], closed = False\<rparr>
     = Received [0, 0, 0, 2]
         \<lparr>inbound = [bytes_of ''no'' @ [7, 7]], ending = Closed, timeout = Some 5,
          sent = [RFB_VERSION, [1]], closed = False\<rparr>
   \<and> recv (unat (be32 0 0 0 2))
         \<lparr>inbound = [bytes_of ''no'' @ [7, 7]], ending = Closed, timeout = Some 5,
          sent = [RFB_VERSION, [1]], closed = False\<rparr>
     = Received (bytes_of ''no'')
         \<lparr>inbound = [[7, 7]], ending = Closed, timeout = Some 5,
          sent = [RFB_VERSION, [1]], closed = False\<rparr>
   \<and> length (bytes_of ''no'') = unat (be32 0 0 0 2)
   \<and> test_vnc_handshake
       [RFB_VERSION, [1, 1], [0, 0, 0, 1], [0, 0, 0, 2], bytes_of ''no'' @ [7, 7]] Closed
     = Some (SecurityHandshakeFailed 1 (Some (str_of ''no'')),
         \<lparr>inbound = [[7, 7]], ending = Closed, timeout = Some 5, sent = [RFB_VERSION, [1]],
          closed = False\<rparr>)"
  using client_security_result_one_read
    [where v = RFB_VERSION and d = "str_of ''RFB 003.008'' @ [10]" and k = 1
      and types = "[1]" and ?r1.0 = 0 and ?r2.0 = 0 and ?r3.0 = 0 and ?r4.0 = 0
      and tail = "[]" and rest = "[]" and e = Closed]
    client_security_result_one_read
    [where v = RFB_VERSION and d = "str_of ''RFB 003.008'' @ [10]" and k = 1
      and types = "[1]" and ?r1.0 = 0 and ?r2.0 = 0 and ?r3.0 = 0 and ?r4.0 = 1
      and tail = "[]" and rest = "[[0, 0, 0, 2], bytes_of ''no'' @ [7, 7]]" and e = Closed
      and ?l1.0 = 0 and ?l2.0 = 0 and ?l3.0 = 0 and ?l4.0 = 2
      and ?s2.0 = "\<lparr>inbound = [bytes_of ''no'' @ [7, 7]], ending = Closed,
          timeout = Some 5, sent = [RFB_VERSION, [1]], closed = False\<rparr>"
      and reason = "bytes_of ''no''"
      and ?s3.0 = "\<lparr>inbound = [[7, 7]], ending = Closed, timeout = Some 5,
          sent = [RFB_VERSION, [1]], closed = False\<rparr>"]
  by (simp add: RFB_VERSION_def codec_defs recv_def)

text \<open>
  C5, the claim as stated fails: after the result 1, a reason of five bytes arrives in
  two pieces. The single \<^verbatim>\<open>recv(5)\<close> returns the two bytes of the first piece, and
  the three bytes left of the reason stay unread: the client has not read the one reason
  string.
\<close>

theorem client_reads_whole_reason_counterexample:
  "be32 0 0 0 1 \<noteq> 0
   \<and> test_vnc_handshake
       [RFB_VERSION, [1, 1], [0, 0, 0, 1] @ [0, 0, 0, 5] @ bytes_of ''he'', bytes_of ''llo'']
       Closed
     = Some (SecurityHandshakeFailed 1 (Some (str_of ''he'')),
         \<lparr>inbound = [bytes_of ''llo''], ending = Closed, timeout = Some 5,
          sent = [RFB_VERSION, [1]], closed = False\<rparr>)
   \<and> unat (be32 0 0 0 5) = 5 \<and> length (bytes_of ''he'') = 2"
  by (simp add: codec_defs sock_defs client_defs RFB_VERSION_def)

section \<open>The client's version check\<close>

text \<open>
  \<^verbatim>\<open>startswith\<close> is applied to the stripped string. Stripping at the end cannot
  remove any of \<^verbatim>\<open>RFB 003.\<close>, which ends with a character that is not white space, so
  the check is one on the string without its leading white space.
\<close>

lemma rstrip_prefix: "prefix (rev (dropWhile P (rev xs))) xs"
proof -
  have "suffix (dropWhile P (rev xs)) (rev xs)" by (rule suffix_dropWhile)
  then have "prefix (rev (dropWhile P (rev xs))) (rev (rev xs))"
    by (simp only: suffix_to_prefix)
  then show ?thesis by simp
qed

lemma prefix_rstrip:
  assumes "prefix p xs" and "p \<noteq> []" and "\<not> P (last p)"
  shows "prefix p (rev (dropWhile P (rev xs)))"
proof -
  from assms(1) obtain r where xs: "xs = p @ r" by (auto simp add: prefix_def)
  from assms(2,3) have keep: "dropWhile P (rev p) = rev p"
    by (cases p rule: rev_cases) simp_all
  show ?thesis
    by (cases "\<forall>x \<in> set r. P x") (auto simp add: xs dropWhile_append keep)
qed

lemma startswith_strip:
  "startswith (strip d) (str_of ''RFB 003.'') \<longleftrightarrow> prefix (str_of ''RFB 003.'') (dropWhile isspace d)"
proof
  assume "startswith (strip d) (str_of ''RFB 003.'')"
  then have "prefix (str_of ''RFB 003.'') (rev (dropWhile isspace (rev (dropWhile isspace d))))"
    by (simp add: startswith_def strip_def)
  then show "prefix (str_of ''RFB 003.'') (dropWhile isspace d)"
    using rstrip_prefix prefix_order.trans by blast
next
  assume "prefix (str_of ''RFB 003.'') (dropWhile isspace d)"
  then have "prefix (str_of ''RFB 003.'') (rev (dropWhile isspace (rev (dropWhile isspace d))))"
    by (rule prefix_rstrip) (simp_all add: str_of_def isspace_def)
  then show "startswith (strip d) (str_of ''RFB 003.'')"
    by (simp add: startswith_def strip_def)
qed

text \<open>
  C10. The client does not test whether the decoded version begins with
  \<^verbatim>\<open>RFB 003.\<close>: it strips white space first. For every 12 bytes the first
  \<^verbatim>\<open>recv(12)\<close> returns, the client goes on exactly when they are ASCII and their
  decoding, after its leading white space, begins with \<^verbatim>\<open>RFB 003.\<close>; it then sends
  the 12 bytes back unchanged as the first thing it sends, and otherwise sends nothing.
\<close>

theorem client_version_check:
  assumes "length v = 12"
  shows "\<exists>out s. test_vnc_handshake ((v @ tail) # rest) e = Some (out, s)
           \<and> (if \<exists>d. decode_ascii v = Some d
                      \<and> prefix (str_of ''RFB 003.'') (dropWhile isspace d)
              then \<exists>sent_later. sent s = v # sent_later
              else sent s = [])"
proof (cases "\<exists>d. decode_ascii v = Some d \<and> prefix (str_of ''RFB 003.'') (dropWhile isspace d)")
  case True
  then obtain d where d: "decode_ascii v = Some d"
    and "startswith (strip d) (str_of ''RFB 003.'')"
    by (auto simp add: startswith_strip)
  with assms have run: "test_vnc_handshake ((v @ tail) # rest) e
    = client_step3 \<lparr>inbound = (if tail = [] then rest else tail # rest), ending = e,
                    timeout = Some 5, sent = [v], closed = False\<rparr>"
    by (rule client_after_version)
  have "client_step3 \<lparr>inbound = (if tail = [] then rest else tail # rest), ending = e,
                    timeout = Some 5, sent = [v], closed = False\<rparr> \<noteq> None"
    by (rule client_step3_total) simp
  then obtain out s where os: "client_step3 \<lparr>inbound = (if tail = [] then rest else tail # rest), ending = e,
                    timeout = Some 5, sent = [v], closed = False\<rparr> = Some (out, s)"
    by fastforce
  then have "prefix [v] (sent s)" using client_step3_sent [OF os] by simp
  then have "\<exists>sent_later. sent s = v # sent_later" by (auto simp add: prefix_def)
  then show ?thesis using True run os by simp
next
  case False
  from assms have ne: "v \<noteq> []" by auto
  have "test_vnc_handshake ((v @ tail) # rest) e
    = Some (case decode_ascii v of
              None \<Rightarrow> Error UnicodeDecodeError
            | Some d \<Rightarrow> InvalidRFBVersion (strip d),
        \<lparr>inbound = (if tail = [] then rest else tail # rest), ending = e,
         timeout = Some 5, sent = [], closed = False\<rparr>)"
    using False assms ne
    by (auto simp add: test_vnc_handshake_def client_step1_def recv_then_def new_socket_def
        settimeout_def recv_data startswith_strip handler_def split: option.splits)
  then show ?thesis using False by simp
qed

theorem client_version_check_witness:
  "length (bytes_of ''RFB 003.003'' @ [10]) = 12
   \<and> (\<exists>out s. test_vnc_handshake [bytes_of ''RFB 003.003'' @ [10]] Closed = Some (out, s)
         \<and> (\<exists>sent_later. sent s = (bytes_of ''RFB 003.003'' @ [10]) # sent_later))"
  using client_version_check
    [where v = "bytes_of ''RFB 003.003'' @ [10]" and tail = "[]" and rest = "[]"
      and e = Closed]
  by (simp add: codec_defs)

text \<open>
  C10, the claim as stated fails: these 12 bytes decode to a string that begins with a
  line feed, not with \<^verbatim>\<open>RFB 003.\<close>, and the client accepts them and echoes them.
\<close>

theorem client_version_begins_with_counterexample:
  "length (10 # bytes_of ''RFB 003.8'' @ [10, 10]) = 12
   \<and> decode_ascii (10 # bytes_of ''RFB 003.8'' @ [10, 10])
     = Some (10 # str_of ''RFB 003.8'' @ [10, 10])
   \<and> \<not> startswith (10 # str_of ''RFB 003.8'' @ [10, 10]) (str_of ''RFB 003.'')
   \<and> test_vnc_handshake [10 # bytes_of ''RFB 003.8'' @ [10, 10]] Closed
     = Some (Error struct_error,
         \<lparr>inbound = [], ending = Closed, timeout = Some 5,
          sent = [10 # bytes_of ''RFB 003.8'' @ [10, 10]], closed = False\<rparr>)"
  by (simp add: codec_defs sock_defs client_defs)

section \<open>Timeouts\<close>




section \<open>The handshake end to end\<close>

lemma client_step8_Completed:
  "\<exists>r s'. client_step8 p s = Some (Completed p r, s') \<and> prefix (sent s) (sent s')"
proof -
  have "client_step8 p s \<noteq> None" by (rule client_step8_total)
  then obtain out s' where os: "client_step8 p s = Some (out, s')" by fastforce
  then have "\<exists>r. out = Completed p r"
    by (auto simp add: client_step8_def Let_def split: recv_result.splits)
  then show ?thesis using os client_step8_sent [OF os] by auto
qed

text \<open>
  C1 (scenario A). The server, given the client's version echo, its selection of type 1
  and its ClientInit, sends its version, the offer \<open>[1]\<close>, the result 0 and ServerInit,
  which carries width 1024, height 768 and the 15 bytes of the name
  \<^verbatim>\<open>Horcrux Test VM\<close> (not \<^verbatim>\<open>Test VM\<close>). The client, given these four messages,
  whatever follows them, completes the handshake and returns True with width 1024 and
  height 768, having sent the echo, the selection and ClientInit. What the client takes
  for the desktop name is not part of this statement.
\<close>

theorem scenario_A_handshake_completes:
  "handle_client host_be [RFB_VERSION, [1], [1]] Closed
   = Some (ClientDisconnected,
       \<lparr>conn = \<lparr>inbound = [], ending = Closed, timeout = Some 1,
                 sent = [RFB_VERSION, [1, SECURITY_NONE], [0, 0, 0, 0], server_init host_be],
                 closed = True\<rparr>,
        log = []\<rparr>)
   \<and> server_init host_be
     = [4, 0] @ [3, 0] @ pixel_format host_be @ [0, 0, 0, 15] @ bytes_of ''Horcrux Test VM''
   \<and> (\<exists>p r s. test_vnc_handshake
                  ([RFB_VERSION, [1, SECURITY_NONE], [0, 0, 0, 0], server_init host_be] @ rest) e
                = Some (Completed p r, s)
          \<and> returns (Completed p r) \<and> width p = 1024 \<and> height p = 768
          \<and> take 3 (sent s) = [RFB_VERSION, [1], [1]])"
proof -
  have server: "handle_client host_be [RFB_VERSION, [1], [1]] Closed
   = Some (ClientDisconnected,
       \<lparr>conn = \<lparr>inbound = [], ending = Closed, timeout = Some 1,
                 sent = [RFB_VERSION, [1, SECURITY_NONE], [0, 0, 0, 0], server_init host_be],
                 closed = True\<rparr>,
        log = []\<rparr>)"
    by (simp add: handle_client_def server_step1_def new_socket_def sendall_def
        server_step2_data server_step4_data server_step6_data server_step8_def
        session_loop_closed finally_close_def close_def bytes_of_def RFB_VERSION_def
        SECURITY_NONE_def)
  have init: "server_init host_be
     = [4, 0] @ [3, 0] @ pixel_format host_be @ [0, 0, 0, 15] @ bytes_of ''Horcrux Test VM''"
    by (simp add: server_init_def desktop_name_def pack_H_def pack_I_def bytes_of_def)
  define p where "p = \<lparr>width = 1024, height = 768, bits_per_pixel = 32, depth = 24,
      big_endian = 0, true_color = 1,
      red_max = (if host_be then 255 else 65280), green_max = (if host_be then 255 else 65280),
      blue_max = (if host_be then 255 else 65280), red_shift = 16, green_shift = 8,
      blue_shift = 0, name = str_of ''rux Test VM''\<rparr>"
  define s7 where "s7 = \<lparr>inbound = rest, ending = e, timeout = Some 5,
      sent = [RFB_VERSION, [1], [1]], closed = False\<rparr>"
  have run: "test_vnc_handshake
               ([RFB_VERSION, [1, SECURITY_NONE], [0, 0, 0, 0], server_init host_be] @ rest) e
             = client_step8 p s7"
    by (cases host_be)
      (simp_all add: p_def s7_def RFB_VERSION_def SECURITY_NONE_def codec_defs
        test_vnc_handshake_def client_step1_def client_step2_def client_step3_def
        client_step4_def client_step5_def client_step6_def client_step7_def
        parse_server_init_def recv_then_def recv_data new_socket_def settimeout_def
        sendall_def server_init_def pixel_format_def desktop_name_def)
  obtain r s where step8: "client_step8 p s7 = Some (Completed p r, s)"
    and grows: "prefix (sent s7) (sent s)"
    using client_step8_Completed by blast
  have result: "test_vnc_handshake
               ([RFB_VERSION, [1, SECURITY_NONE], [0, 0, 0, 0], server_init host_be] @ rest) e
             = Some (Completed p r, s)"
    using run step8 by simp
  have size: "width p = 1024 \<and> height p = 768" by (simp add: p_def)
  have true: "returns (Completed p r)" by (simp add: returns_def)
  have sends: "take 3 (sent s) = [RFB_VERSION, [1], [1]]"
    using grows by (auto simp add: s7_def prefix_def)
  from server init result size true sends show ?thesis by blast
qed

text \<open>
  C1, the claim as stated fails. The run of the two scripts against each other on a
  little-endian host: each, given what the other sends, sends what the other is given.
  The name the server sends is \<^verbatim>\<open>Horcrux Test VM\<close>. The client reads 24 bytes where
  width, height and pixel format are 20, so its \<^verbatim>\<open>recv(24)\<close> takes the length of the
  name too, its next \<^verbatim>\<open>recv(4)\<close> takes the first four bytes of the name for the
  length, and the name it ends with is \<^verbatim>\<open>rux Test VM\<close>: neither the \<^verbatim>\<open>Test VM\<close>
  of the claim nor the name the server sent.
\<close>

theorem scenario_A_desktop_name_counterexample:
  "handle_client False [RFB_VERSION, [1], [1], framebuffer_update_request 1024 768] Closed
   = Some (ClientDisconnected,
       \<lparr>conn = \<lparr>inbound = [], ending = Closed, timeout = Some 1,
                 sent = [RFB_VERSION, [1, 1], [0, 0, 0, 0], server_init False, fb_update],
                 closed = True\<rparr>,
        log = [(3, 10, Some FramebufferUpdateRequest)]\<rparr>)
   \<and> test_vnc_handshake
       [RFB_VERSION, [1, 1], [0, 0, 0, 0], server_init False, fb_update] Closed
     = Some (Completed
         \<lparr>width = 1024, height = 768, bits_per_pixel = 32, depth = 24, big_endian = 0,
          true_color = 1, red_max = 65280, green_max = 65280, blue_max = 65280,
          red_shift = 16, green_shift = 8, blue_shift = 0,
          name = str_of ''rux Test VM''\<rparr> FramebufferUpdate,
         \<lparr>inbound = [], ending = Closed, timeout = Some 2,
          sent = [RFB_VERSION, [1], [1], framebuffer_update_request 1024 768],
          closed = True\<rparr>)
   \<and> str_of ''rux Test VM'' \<noteq> str_of ''Test VM''
   \<and> desktop_name = bytes_of ''Horcrux Test VM''
   \<and> desktop_name \<noteq> bytes_of ''Test VM''"
proof -
  have server:
    "handle_client False [RFB_VERSION, [1], [1], framebuffer_update_request 1024 768] Closed
     = Some (ClientDisconnected,
         \<lparr>conn = \<lparr>inbound = [], ending = Closed, timeout = Some 1,
                   sent = [RFB_VERSION, [1, 1], [0, 0, 0, 0], server_init False, fb_update],
                   closed = True\<rparr>,
          log = [(3, 10, Some FramebufferUpdateRequest)]\<rparr>)"
    by (simp add: handle_client_def server_step1_def server_step2_def server_step3_def
        server_step4_def server_step5_def server_step6_def server_step7_def server_step8_def
        sock_defs RFB_VERSION_def SECURITY_NONE_def bytes_of_def pack_I_def pack_H_def
        framebuffer_update_request_def message_of_type_def finally_close_def
        session_loop_data session_loop_closed)
  have client:
    "test_vnc_handshake
       [RFB_VERSION, [1, 1], [0, 0, 0, 0], server_init False, fb_update] Closed
     = Some (Completed
         \<lparr>width = 1024, height = 768, bits_per_pixel = 32, depth = 24, big_endian = 0,
          true_color = 1, red_max = 65280, green_max = 65280, blue_max = 65280,
          red_shift = 16, green_shift = 8, blue_shift = 0,
          name = str_of ''rux Test VM''\<rparr> FramebufferUpdate,
         \<lparr>inbound = [], ending = Closed, timeout = Some 2,
          sent = [RFB_VERSION, [1], [1], framebuffer_update_request 1024 768],
          closed = True\<rparr>)"
    by (simp add: codec_defs sock_defs server_defs client_defs)
  have names: "str_of ''rux Test VM'' \<noteq> str_of ''Test VM''"
    "desktop_name = bytes_of ''Horcrux Test VM''"
    "desktop_name \<noteq> bytes_of ''Test VM''"
    by (simp_all add: str_of_def bytes_of_def desktop_name_def)
  from server client names show ?thesis by blast
qed

end
